theory Spec2Isabelle
  imports Main "HOL-Library.Multiset"
begin

section \<open>Text primitives of the interpreter\<close>

text \<open>
  The script \<^verbatim>\<open>create_new_member_ext.py\<close> works on Python strings. They are modelled as
  \<^typ>\<open>string\<close> holding ASCII text; the built-in operations the script calls
  (\<^verbatim>\<open>str.upper\<close>, \<^verbatim>\<open>str.lower\<close>, \<^verbatim>\<open>str.split\<close>, \<^verbatim>\<open>str.join\<close>, \<^verbatim>\<open>int\<close>, \<^verbatim>\<open>str\<close> of an
  integer) are written out below with their behaviour on ASCII text. Integers are
  Python's unbounded integers, hence \<^typ>\<open>int\<close>.
\<close>

definition NL :: char where
  "NL = CHR 0x0A"

definition TAB :: char where
  "TAB = CHR 0x09"

definition DQ :: char where
  "DQ = CHR 0x22"

definition SQ :: char where
  "SQ = CHR 0x27"

definition upper_char :: "char \<Rightarrow> char" where
  "upper_char c =
     (let n = (of_char c :: nat) in if 97 \<le> n \<and> n \<le> 122 then char_of (n - 32) else c)"

definition lower_char :: "char \<Rightarrow> char" where
  "lower_char c =
     (let n = (of_char c :: nat) in if 65 \<le> n \<and> n \<le> 90 then char_of (n + 32) else c)"

definition upper :: "string \<Rightarrow> string" where
  "upper s = map upper_char s"

definition lower :: "string \<Rightarrow> string" where
  "lower s = map lower_char s"

text \<open>\<^verbatim>\<open>line.split(',')\<close>: the fields between the separators; never an empty list.\<close>

fun split_on :: "char \<Rightarrow> string \<Rightarrow> string list" where
  "split_on sep [] = [[]]"
| "split_on sep (c # cs) =
     (if c = sep then [] # split_on sep cs
      else (case split_on sep cs of
              [] \<Rightarrow> [[c]]
            | p # ps \<Rightarrow> (c # p) # ps))"

text \<open>\<^verbatim>\<open>sep.join(xs)\<close>.\<close>

fun join :: "string \<Rightarrow> string list \<Rightarrow> string" where
  "join sep [] = []"
| "join sep [x] = x"
| "join sep (x # y # ys) = x @ sep @ join sep (y # ys)"

text \<open>
  \<^verbatim>\<open>int(s)\<close> in base ten: surrounding white space (tab, line feed, vertical tab, form
  feed, carriage return, blank) is stripped, one sign is allowed, then
  decimal digits, where single underscores may stand between two digits. Anything else
  raises \<^verbatim>\<open>ValueError\<close>, here \<open>None\<close>.
\<close>

definition is_space :: "char \<Rightarrow> bool" where
  "is_space c = (let n = (of_char c :: nat) in (9 \<le> n \<and> n \<le> 13) \<or> n = 32)"

definition is_digit :: "char \<Rightarrow> bool" where
  "is_digit c = (let n = (of_char c :: nat) in 48 \<le> n \<and> n \<le> 57)"

definition digit_val :: "char \<Rightarrow> nat" where
  "digit_val c = of_char c - 48"

definition strip :: "string \<Rightarrow> string" where
  "strip s = rev (dropWhile is_space (rev (dropWhile is_space s)))"

fun scan_digits :: "bool \<Rightarrow> nat \<Rightarrow> string \<Rightarrow> nat option" where
  "scan_digits prev acc [] = (if prev then Some acc else None)"
| "scan_digits prev acc (c # cs) =
     (if is_digit c then scan_digits True (10 * acc + digit_val c) cs
      else if c = CHR ''_'' \<and> prev then scan_digits False acc cs
      else None)"

definition py_int :: "string \<Rightarrow> int option" where
  "py_int s =
     (case strip s of
        [] \<Rightarrow> None
      | c # cs \<Rightarrow>
          if c = CHR ''-'' then map_option (\<lambda>n. - int n) (scan_digits False 0 cs)
          else if c = CHR ''+'' then map_option int (scan_digits False 0 cs)
          else map_option int (scan_digits False 0 (c # cs)))"

text \<open>\<^verbatim>\<open>str(n)\<close> of an integer, as the f-strings render it.\<close>

fun str_nat :: "nat \<Rightarrow> string" where
  "str_nat n =
     (if n < 10 then [char_of (48 + n)]
      else str_nat (n div 10) @ [char_of (48 + n mod 10)])"

declare str_nat.simps [simp del]

definition str_int :: "int \<Rightarrow> string" where
  "str_int i = (if i < 0 then CHR ''-'' # str_nat (nat (- i)) else str_nat (nat i))"

text \<open>\<^verbatim>\<open>a ^ b\<close> on sets.\<close>

definition set_xor :: "'a set \<Rightarrow> 'a set \<Rightarrow> 'a set" where
  "set_xor a b = (a - b) \<union> (b - a)"

section \<open>Exceptions, effects and the outside world\<close>

text \<open>
  Exceptions are values. \<^verbatim>\<open>IndexError\<close> comes from \<^verbatim>\<open>parts[1]\<close>, \<^verbatim>\<open>ValueError\<close> from
  \<^verbatim>\<open>int\<close> (it carries the offending text), \<^verbatim>\<open>OSError\<close> from \<^verbatim>\<open>open\<close> (it carries the
  path), \<^verbatim>\<open>DatabaseError\<close> from the database driver and \<^verbatim>\<open>ConfigParserError\<close> from
  \<^verbatim>\<open>cfg.read\<close>.
\<close>

datatype py_exn =
    IndexError
  | ValueError string
  | OSError string
  | DatabaseError
  | ConfigParserError

text \<open>What \<^verbatim>\<open>logging.error\<close> is handed: a text, or an exception object.\<close>

datatype message = Text string | ExnText py_exn

datatype query = CharSemanticsQuery | AllColumnsQuery

text \<open>The observable effects of a run, in the order they happen.\<close>

datatype event =
    Connect string string string
  | Execute query
  | OpenDescriptor string
  | LogError message
  | PrintDiscrepancies "string set"
  | PrintDDL string
  | CallProc string string

text \<open>
  How a run stops early: \<^verbatim>\<open>sys.exit()\<close> and \<^verbatim>\<open>exit()\<close>, both called without an
  argument, raise \<^verbatim>\<open>SystemExit\<close>, which no handler of the script catches
  (\<^verbatim>\<open>except Exception\<close> does not); any other exception that reaches the top level
  ends the process with a traceback.
\<close>

datatype abort = SysExit | Uncaught py_exn

text \<open>
  The process status: \<^verbatim>\<open>SystemExit\<close> without an argument gives status 0, an uncaught
  exception gives status 1, a run that reaches the end of the script gives 0.
\<close>

fun exit_status :: "abort + 'a \<Rightarrow> nat" where
  "exit_status (Inl SysExit) = 0"
| "exit_status (Inl (Uncaught e)) = 1"
| "exit_status (Inr v) = 0"

text \<open>
  What \<^verbatim>\<open>cfg.get\<close> does for an option that \<^verbatim>\<open>cfg.has_option\<close> finds: it returns the
  value, or raises (a value with a stray \<^verbatim>\<open>%\<close> fails interpolation).
\<close>

datatype cfg_value = Value string | GetRaises

text \<open>
  What \<^verbatim>\<open>cfg.read\<close> finds in the configuration file: it raises, or it gives the
  sections, of which only \<^verbatim>\<open>database\<close> is looked at (\<open>None\<close> when there is no such
  section, else its options).
\<close>

datatype config =
    CfgRaises
  | Cfg "(string \<rightharpoonup> cfg_value) option"

text \<open>
  The world the script runs in: which paths are regular files, what the configuration
  parser reads, the lines of a text file (\<open>None\<close> when \<^verbatim>\<open>open\<close> raises), whether the
  database accepts the connection, the rows each query returns (\<open>None\<close> when the
  driver raises) and whether the stored procedure succeeds.
\<close>

record world =
  isfile :: "string \<Rightarrow> bool"
  cfg_read :: "string \<Rightarrow> config"
  open_lines :: "string \<Rightarrow> string list option"
  connect_ok :: "string \<Rightarrow> string \<Rightarrow> string \<Rightarrow> bool"
  char_rows :: "string list option"
  all_rows :: "string list option"
  callproc_ok :: bool

text \<open>The parsed command line, and the dictionary \<^verbatim>\<open>expand_args\<close> returns.\<close>

record cli_args =
  dbconfig_path :: string
  fmt_path :: string
  affiliate_acronym :: string
  show_only :: bool

record args = cli_args +
  table_name :: string
  username :: string
  password :: string
  dbname :: string
  directory_name :: string

type_synonym 'a run = "event list \<times> (abort + 'a)"

text \<open>\<^verbatim>\<open>log_and_quit\<close>: log the message, then \<^verbatim>\<open>sys.exit()\<close>.\<close>

definition log_and_quit :: "message \<Rightarrow> 'a run" where
  "log_and_quit m = ([LogError m], Inl SysExit)"

section \<open>collect\_columns\<close>

text \<open>The local variables of \<^verbatim>\<open>collect_columns\<close> that the loop updates.\<close>

record collect_state =
  all_columns :: "string set"
  offset :: int
  with_lengths :: "string list"
  with_offsets :: "string list"

definition init_state :: collect_state where
  "init_state = \<lparr>all_columns = {}, offset = 0, with_lengths = [], with_offsets = []\<rparr>"

text \<open>
  The first two statements of the loop body: split the line, then evaluate
  \<^verbatim>\<open>parts[0].upper(), int(parts[1])\<close> from left to right.
\<close>

definition parse_line :: "string \<Rightarrow> py_exn + (string \<times> int)" where
  "parse_line line =
     (case split_on CHR '','' line of
        [] \<Rightarrow> Inl IndexError
      | p0 # ps \<Rightarrow>
          (let name = upper p0
           in case ps of
                [] \<Rightarrow> Inl IndexError
              | p1 # _ \<Rightarrow>
                  (case py_int p1 of
                     None \<Rightarrow> Inl (ValueError p1)
                   | Some len \<Rightarrow> Inr (name, len))))"

definition render_length :: "string set \<Rightarrow> string \<Rightarrow> int \<Rightarrow> string" where
  "render_length char_columns name len =
     (let char_used = (if name \<in> char_columns then ''CHAR'' else ''BYTE'')
      in name @ '' VARCHAR2('' @ str_int len @ '' '' @ char_used @ '')'')"

definition render_position :: "string \<Rightarrow> int \<Rightarrow> int \<Rightarrow> string" where
  "render_position name first last' =
     [DQ] @ name @ [DQ] @ [TAB] @ ''POSITION('' @ str_int first @ '':'' @ str_int last' @ '')''"

text \<open>The rest of the loop body, for a line that is not the sentinel.\<close>

definition add_column :: "string set \<Rightarrow> collect_state \<Rightarrow> string \<Rightarrow> int \<Rightarrow> collect_state" where
  "add_column char_columns st name len =
     (let first = offset st + 1;
          last' = offset st + len
      in \<lparr>all_columns = insert (upper name) (all_columns st),
          offset = offset st + len,
          with_lengths = with_lengths st @ [render_length char_columns name len],
          with_offsets = with_offsets st @ [render_position name first last']\<rparr>)"

datatype step = Raise py_exn | Break | Next collect_state

definition process_line :: "string set \<Rightarrow> collect_state \<Rightarrow> string \<Rightarrow> step" where
  "process_line char_columns st line =
     (case parse_line line of
        Inl e \<Rightarrow> Raise e
      | Inr (name, len) \<Rightarrow>
          if name = ''EOR'' then Break
          else Next (add_column char_columns st name len))"

text \<open>\<^verbatim>\<open>for line in ifh\<close>: an exception leaves the loop, and so does \<^verbatim>\<open>break\<close>.\<close>

fun collect_loop :: "string set \<Rightarrow> collect_state \<Rightarrow> string list \<Rightarrow> py_exn + collect_state" where
  "collect_loop char_columns st [] = Inr st"
| "collect_loop char_columns st (line # rest) =
     (case process_line char_columns st line of
        Raise e \<Rightarrow> Inl e
      | Break \<Rightarrow> Inr st
      | Next st' \<Rightarrow> collect_loop char_columns st' rest)"

record retval =
  columns_with_lengths :: string
  columns_with_offsets :: string

definition collect_columns ::
  "world \<Rightarrow> string \<Rightarrow> string set \<Rightarrow> string set \<Rightarrow> retval run" where
  "collect_columns w path char_columns db_columns =
     (case open_lines w path of
        None \<Rightarrow> ([OpenDescriptor path, LogError (ExnText (OSError path))], Inl SysExit)
      | Some ls \<Rightarrow>
          (case collect_loop char_columns init_state ls of
             Inl e \<Rightarrow> ([OpenDescriptor path, LogError (ExnText e)], Inl SysExit)
           | Inr st \<Rightarrow>
               (let discrepancies = set_xor db_columns (all_columns st)
                in if discrepancies \<noteq> {}
                   then ([OpenDescriptor path, PrintDiscrepancies discrepancies], Inl SysExit)
                   else ([OpenDescriptor path],
                         Inr \<lparr>columns_with_lengths =
                                join ('','' @ [NL] @ ''    '') (with_lengths st),
                              columns_with_offsets =
                                join ('','' @ [NL] @ ''       '') (with_offsets st)\<rparr>))))"

section \<open>gen\_ddl, create\_table, expand\_args and the script\<close>

text \<open>The dictionary \<^verbatim>\<open>values\<close> that fills the template.\<close>

record ddl_values = retval +
  v_table_name :: string
  v_lc_table_name :: string
  v_directory_name :: string
  v_file_name :: string

text \<open>\<^verbatim>\<open>_TEMPLATE % values\<close>, line by line.\<close>

definition template :: "'a ddl_values_scheme \<Rightarrow> string" where
  "template v =
     ''CREATE TABLE '' @ v_table_name v @ [NL] @
     ''  ('' @ columns_with_lengths v @ [NL] @
     ''  )'' @ [NL] @
     ''  ORGANIZATION EXTERNAL'' @ [NL] @
     ''   (TYPE ORACLE_LOADER'' @ [NL] @
     ''    DEFAULT DIRECTORY '' @ v_directory_name v @ [NL] @
     ''    ACCESS PARAMETERS'' @ [NL] @
     ''    ( records delimited by newline'' @ [NL] @
     ''      badfile '' @ v_directory_name v @ '':'' @ [SQ] @ v_lc_table_name v @ ''.bad'' @ [SQ] @ [NL] @
     ''      logfile '' @ v_directory_name v @ '':'' @ [SQ] @ v_lc_table_name v @ ''.log'' @ [SQ] @ [NL] @
     ''      fields'' @ [NL] @
     ''      ('' @ columns_with_offsets v @ '')'' @ [NL] @
     ''    )'' @ [NL] @
     ''    LOCATION'' @ [NL] @
     ''    ( '' @ [SQ] @ v_file_name v @ [SQ] @ [NL] @
     ''    )'' @ [NL] @
     ''  )'' @ [NL] @
     ''  REJECT LIMIT UNLIMITED'' @ [NL]"

text \<open>
  \<^verbatim>\<open>gen_ddl\<close>: both schema queries first, then the descriptor, then the template. The
  local \<^verbatim>\<open>acronym_upper\<close> is computed and never used.
\<close>

definition gen_ddl :: "world \<Rightarrow> args \<Rightarrow> string run" where
  "gen_ddl w all_args =
     (case char_rows w of
        None \<Rightarrow> ([Execute CharSemanticsQuery], Inl (Uncaught DatabaseError))
      | Some crows \<Rightarrow>
          (case all_rows w of
             None \<Rightarrow>
               ([Execute CharSemanticsQuery, Execute AllColumnsQuery],
                Inl (Uncaught DatabaseError))
           | Some arows \<Rightarrow>
               (let char_columns = set crows;
                    db_columns = set arows;
                    acronym_upper = upper (affiliate_acronym all_args);
                    acronym_lower = lower (affiliate_acronym all_args);
                    (evs, r) = collect_columns w (fmt_path all_args) char_columns db_columns
                in case r of
                     Inl a \<Rightarrow>
                       ([Execute CharSemanticsQuery, Execute AllColumnsQuery] @ evs, Inl a)
                   | Inr rv \<Rightarrow>
                       ([Execute CharSemanticsQuery, Execute AllColumnsQuery] @ evs,
                        Inr (template
                          \<lparr>columns_with_lengths = columns_with_lengths rv,
                           columns_with_offsets = columns_with_offsets rv,
                           v_table_name = table_name all_args,
                           v_lc_table_name = lower (table_name all_args),
                           v_directory_name = directory_name all_args,
                           v_file_name = acronym_lower @ ''_good.txt''\<rparr>)))))"

text \<open>\<^verbatim>\<open>create_table\<close>: one call of the stored procedure.\<close>

definition create_table :: "world \<Rightarrow> string \<Rightarrow> string \<Rightarrow> unit run" where
  "create_table w tname ddl =
     ([CallProc tname ddl],
      if callproc_ok w then Inr () else Inl (Uncaught DatabaseError))"

text \<open>
  \<^verbatim>\<open>expand_args\<close>: the table name is built from the acronym as given; then the
  configuration file is checked, and the loop over the four required options is
  written out in its order: an option that is missing is logged, an option whose
  \<^verbatim>\<open>cfg.get\<close> raises ends the script with that exception.
\<close>

definition expand_args :: "world \<Rightarrow> cli_args \<Rightarrow> args run" where
  "expand_args w a =
     (let tname = ''NEW_MEMBER_'' @ affiliate_acronym a @ ''_EXT''
      in if \<not> isfile w (dbconfig_path a)
         then log_and_quit (Text (''No such file: '' @ dbconfig_path a))
         else (case cfg_read w (dbconfig_path a) of
                 CfgRaises \<Rightarrow> ([], Inl (Uncaught ConfigParserError))
               | Cfg None \<Rightarrow> log_and_quit (Text ''No database found'')
               | Cfg (Some db) \<Rightarrow>
                   (case db ''username'' of
                      None \<Rightarrow> log_and_quit (Text ''Missing parameter username '')
                    | Some GetRaises \<Rightarrow> ([], Inl (Uncaught ConfigParserError))
                    | Some (Value u) \<Rightarrow>
                   (case db ''password'' of
                      None \<Rightarrow> log_and_quit (Text ''Missing parameter password '')
                    | Some GetRaises \<Rightarrow> ([], Inl (Uncaught ConfigParserError))
                    | Some (Value p) \<Rightarrow>
                   (case db ''dbname'' of
                      None \<Rightarrow> log_and_quit (Text ''Missing parameter dbname '')
                    | Some GetRaises \<Rightarrow> ([], Inl (Uncaught ConfigParserError))
                    | Some (Value d) \<Rightarrow>
                   (case db ''directory_name'' of
                      None \<Rightarrow> log_and_quit (Text ''Missing parameter directory_name '')
                    | Some GetRaises \<Rightarrow> ([], Inl (Uncaught ConfigParserError))
                    | Some (Value dir) \<Rightarrow>
                        ([], Inr \<lparr>dbconfig_path = dbconfig_path a,
                                   fmt_path = fmt_path a,
                                   affiliate_acronym = affiliate_acronym a,
                                   show_only = show_only a,
                                   table_name = tname,
                                   username = u,
                                   password = p,
                                   dbname = d,
                                   directory_name = dir\<rparr>)))))))"

text \<open>\<^verbatim>\<open>get_cursor\<close>: open the connection.\<close>

definition get_cursor :: "world \<Rightarrow> string \<Rightarrow> string \<Rightarrow> string \<Rightarrow> unit run" where
  "get_cursor w u p d =
     ([Connect u p d], if connect_ok w u p d then Inr () else Inl (Uncaught DatabaseError))"

text \<open>The statements at the end of the script, after the command line is parsed.\<close>

definition main :: "world \<Rightarrow> cli_args \<Rightarrow> unit run" where
  "main w a =
     (case expand_args w a of
        (e1, Inl x) \<Rightarrow> (e1, Inl x)
      | (e1, Inr ar) \<Rightarrow>
          (case get_cursor w (username ar) (password ar) (dbname ar) of
             (e2, Inl x) \<Rightarrow> (e1 @ e2, Inl x)
           | (e2, Inr _) \<Rightarrow>
               (case gen_ddl w ar of
                  (e3, Inl x) \<Rightarrow> (e1 @ e2 @ e3, Inl x)
                | (e3, Inr ddl) \<Rightarrow>
                    if show_only ar then (e1 @ e2 @ e3 @ [PrintDDL ddl], Inr ())
                    else (case create_table w (table_name ar) ddl of
                            (e4, r) \<Rightarrow> (e1 @ e2 @ e3 @ e4, r)))))"

section \<open>Views of the loop used to state its properties\<close>

text \<open>\<^verbatim>\<open>parts[0].upper()\<close>: the name a line carries.\<close>

definition line_name :: "string \<Rightarrow> string" where
  "line_name line = (case split_on CHR '','' line of [] \<Rightarrow> [] | p0 # _ \<Rightarrow> upper p0)"

text \<open>A line that the loop turns into a column: it parses and is not the sentinel.\<close>

definition is_column_line :: "string \<Rightarrow> bool" where
  "is_column_line line =
     (case parse_line line of Inl _ \<Rightarrow> False | Inr (name, _) \<Rightarrow> name \<noteq> ''EOR'')"

text \<open>
  The (name, length) pairs of the lines the loop consumes, in order: every line up to
  the first sentinel, or the first exception.
\<close>

fun columns_of :: "string list \<Rightarrow> py_exn + (string \<times> int) list" where
  "columns_of [] = Inr []"
| "columns_of (line # rest) =
     (case parse_line line of
        Inl e \<Rightarrow> Inl e
      | Inr (name, len) \<Rightarrow>
          if name = ''EOR'' then Inr []
          else (case columns_of rest of
                  Inl e \<Rightarrow> Inl e
                | Inr cols \<Rightarrow> Inr ((name, len) # cols)))"

text \<open>
  The values of the locals \<^verbatim>\<open>first\<close> and \<^verbatim>\<open>last\<close> for each column, starting from a
  given \<^verbatim>\<open>offset\<close>: \<^verbatim>\<open>first = offset + 1\<close>, \<^verbatim>\<open>last = offset + length\<close>,
  \<^verbatim>\<open>offset += length\<close>.
\<close>

record offset_range =
  r_name :: string
  r_first :: int
  r_last :: int

fun offset_ranges :: "int \<Rightarrow> (string \<times> int) list \<Rightarrow> offset_range list" where
  "offset_ranges off [] = []"
| "offset_ranges off ((name, len) # cols) =
     \<lparr>r_name = name, r_first = off + 1, r_last = off + len\<rparr> # offset_ranges (off + len) cols"

definition render_range :: "offset_range \<Rightarrow> string" where
  "render_range r = render_position (r_name r) (r_first r) (r_last r)"

text \<open>The loop body applied to a list of columns.\<close>

fun add_columns :: "string set \<Rightarrow> collect_state \<Rightarrow> (string \<times> int) list \<Rightarrow> collect_state" where
  "add_columns char_columns st [] = st"
| "add_columns char_columns st ((name, len) # cols) =
     add_columns char_columns (add_column char_columns st name len) cols"

text \<open>Kinds of events.\<close>

fun is_callproc :: "event \<Rightarrow> bool" where
  "is_callproc (CallProc t d) = True"
| "is_callproc e = False"

fun is_print_ddl :: "event \<Rightarrow> bool" where
  "is_print_ddl (PrintDDL d) = True"
| "is_print_ddl e = False"

fun is_discrepancy :: "event \<Rightarrow> bool" where
  "is_discrepancy (PrintDiscrepancies d) = True"
| "is_discrepancy e = False"

fun is_report :: "event \<Rightarrow> bool" where
  "is_report (LogError m) = True"
| "is_report (PrintDiscrepancies d) = True"
| "is_report e = False"

text \<open>Whether a run of \<^verbatim>\<open>collect_columns\<close> reports a discrepancy.\<close>

definition reports_discrepancy :: "'a run \<Rightarrow> bool" where
  "reports_discrepancy r = list_ex is_discrepancy (fst r)"

text \<open>The name set the loop ends with, when it ends normally.\<close>

definition name_set :: "string list \<Rightarrow> string set option" where
  "name_set ls = (case columns_of ls of Inl e \<Rightarrow> None | Inr cols \<Rightarrow> Some (fst ` set cols))"

text \<open>
  Conditions on the configuration, read off the world: the options the script asks
  for, the first of them that is missing or cannot be read, and the four values when
  the file is there and every option can be read.
\<close>

definition required_options :: "string list" where
  "required_options = [''username'', ''password'', ''dbname'', ''directory_name'']"

definition first_unusable :: "(string \<rightharpoonup> cfg_value) \<Rightarrow> string option" where
  "first_unusable db =
     find (\<lambda>item. case db item of Some (Value v) \<Rightarrow> False | _ \<Rightarrow> True) required_options"

definition config_values :: "world \<Rightarrow> cli_args \<Rightarrow> (string \<times> string \<times> string \<times> string) option" where
  "config_values w a =
     (if \<not> isfile w (dbconfig_path a) then None
      else (case cfg_read w (dbconfig_path a) of
              Cfg (Some db) \<Rightarrow>
                (case (db ''username'', db ''password'', db ''dbname'', db ''directory_name'') of
                   (Some (Value u), Some (Value p), Some (Value d), Some (Value dir)) \<Rightarrow>
                     Some (u, p, d, dir)
                 | _ \<Rightarrow> None)
            | _ \<Rightarrow> None))"

section \<open>Example worlds\<close>

definition demo_cfg :: config where
  "demo_cfg = Cfg (Some [''username'' \<mapsto> Value ''cope'', ''password'' \<mapsto> Value ''secret'',
                         ''dbname'' \<mapsto> Value ''orcl'',
                         ''directory_name'' \<mapsto> Value ''EXT_DIR''])"

text \<open>
  A world with a complete configuration file \<^verbatim>\<open>db.ini\<close>, a database that answers,
  the given descriptor at \<^verbatim>\<open>cope.fmt\<close> and the given rows for the two queries.
\<close>

definition demo_world :: "string list option \<Rightarrow> string list \<Rightarrow> string list \<Rightarrow> world" where
  "demo_world fmt crows arows =
     \<lparr>isfile = (\<lambda>p. p = ''db.ini''),
      cfg_read = (\<lambda>p. demo_cfg),
      open_lines = (\<lambda>p. if p = ''cope.fmt'' then fmt else None),
      connect_ok = (\<lambda>u p d. True),
      char_rows = Some crows,
      all_rows = Some arows,
      callproc_ok = True\<rparr>"

definition demo_cli :: "string \<Rightarrow> cli_args" where
  "demo_cli acronym =
     \<lparr>dbconfig_path = ''db.ini'', fmt_path = ''cope.fmt'',
      affiliate_acronym = acronym, show_only = False\<rparr>"

definition demo_args :: "string \<Rightarrow> args" where
  "demo_args acronym =
     \<lparr>dbconfig_path = ''db.ini'', fmt_path = ''cope.fmt'',
      affiliate_acronym = acronym, show_only = False,
      table_name = ''NEW_MEMBER_'' @ acronym @ ''_EXT'',
      username = ''cope'', password = ''secret'', dbname = ''orcl'',
      directory_name = ''EXT_DIR''\<rparr>"

text \<open>The descriptor \<^verbatim>\<open>NAME,10\<close> / \<^verbatim>\<open>ADDR,20\<close> / \<^verbatim>\<open>EOR,0\<close>, each line with its newline.\<close>

definition demo_lines :: "string list" where
  "demo_lines = [''NAME,10'' @ [NL], ''ADDR,20'' @ [NL], ''EOR,0'' @ [NL]]"

text \<open>A descriptor with a column \<^verbatim>\<open>city\<close> written in lower case.\<close>

definition demo_city_lines :: "string list" where
  "demo_city_lines = [''city,15'' @ [NL], ''NAME,10'' @ [NL], ''EOR,0'' @ [NL]]"

text \<open>Two descriptors with the same lines in a different order.\<close>

definition demo_sentinel_last :: "string list" where
  "demo_sentinel_last = [''A,1'' @ [NL], ''B,2'' @ [NL], ''EOR,0'' @ [NL]]"

definition demo_sentinel_middle :: "string list" where
  "demo_sentinel_middle = [''A,1'' @ [NL], ''EOR,0'' @ [NL], ''B,2'' @ [NL]]"

text \<open>A descriptor that names the column \<^verbatim>\<open>A\<close> twice.\<close>

definition demo_duplicate_lines :: "string list" where
  "demo_duplicate_lines = [''A,3'' @ [NL], ''a,4'' @ [NL], ''EOR,0'' @ [NL]]"

section \<open>Basic facts about the loop\<close>

lemma upper_char_idem: "upper_char (upper_char c) = upper_char c"
  by (auto simp: upper_char_def Let_def)

lemma upper_idem: "upper (upper s) = upper s"
  by (simp add: upper_def upper_char_idem)

text \<open>The loop is the loop body applied to the columns it consumes.\<close>

lemma collect_loop_columns:
  "collect_loop cc st ls =
     (case columns_of ls of Inl e \<Rightarrow> Inl e | Inr cols \<Rightarrow> Inr (add_columns cc st cols))"
  by (induction ls arbitrary: st) (auto simp: process_line_def split: sum.splits prod.splits)

lemma add_columns_offset:
  "offset (add_columns cc st cols) = offset st + sum_list (map snd cols)"
  by (induction cols arbitrary: st) (auto simp: add_column_def Let_def)

lemma add_columns_with_lengths:
  "with_lengths (add_columns cc st cols) =
     with_lengths st @ map (\<lambda>(n, len). render_length cc n len) cols"
  by (induction cols arbitrary: st) (auto simp: add_column_def Let_def)

lemma add_columns_with_offsets:
  "with_offsets (add_columns cc st cols) =
     with_offsets st @ map render_range (offset_ranges (offset st) cols)"
  by (induction cols arbitrary: st) (auto simp: add_column_def Let_def render_range_def)

lemma add_columns_all_columns:
  "all_columns (add_columns cc st cols) = all_columns st \<union> upper ` fst ` set cols"
proof (induction cols arbitrary: st)
  case Nil
  show ?case by simp
next
  case (Cons c cols)
  obtain n len where c: "c = (n, len)" by (cases c)
  show ?case unfolding c by (simp add: Cons.IH add_column_def Let_def)
qed

lemma parse_line_name: "parse_line l = Inr (n, len) \<Longrightarrow> n = line_name l"
  by (auto simp: parse_line_def line_name_def Let_def split: list.splits option.splits)

lemma parse_line_upper: "parse_line l = Inr (n, len) \<Longrightarrow> upper n = n"
  by (auto simp: parse_line_def Let_def upper_idem split: list.splits option.splits)

lemma columns_of_names:
  "columns_of ls = Inr cols \<Longrightarrow> (n, len) \<in> set cols \<Longrightarrow> upper n = n \<and> n \<noteq> ''EOR''"
proof (induction ls arbitrary: cols)
  case Nil
  then show ?case by simp
next
  case (Cons l ls)
  then show ?case
    by (auto split: sum.splits prod.splits if_splits dest: parse_line_upper)
qed

lemma columns_of_upper_image:
  "columns_of ls = Inr cols \<Longrightarrow> upper ` fst ` set cols = fst ` set cols"
  by (force dest: columns_of_names simp: image_iff)

lemma offset_ranges_length: "length (offset_ranges off cols) = length cols"
  by (induction off cols rule: offset_ranges.induct) auto

lemma offset_ranges_nth:
  "i < length cols \<Longrightarrow>
     offset_ranges off cols ! i =
       \<lparr>r_name = fst (cols ! i),
        r_first = off + sum_list (map snd (take i cols)) + 1,
        r_last = off + sum_list (map snd (take (Suc i) cols))\<rparr>"
proof (induction off cols arbitrary: i rule: offset_ranges.induct)
  case (1 off)
  then show ?case by simp
next
  case (2 off name len cols)
  then show ?case by (cases i) (auto simp: add.assoc)
qed

lemma sum_take_nonneg:
  fixes cols :: "(string \<times> int) list"
  shows "list_all (\<lambda>(n, len). 0 < len) cols \<Longrightarrow> 0 \<le> sum_list (map snd (take j cols))"
proof (induction cols arbitrary: j)
  case Nil
  then show ?case by simp
next
  case (Cons c cols)
  then show ?case by (cases j) (auto simp: add_nonneg_nonneg less_imp_le)
qed

lemma sum_take_mono:
  fixes cols :: "(string \<times> int) list"
  assumes "list_all (\<lambda>(n, len). 0 < len) cols" and "i \<le> j"
  shows "sum_list (map snd (take i cols)) \<le> sum_list (map snd (take j cols))"
  using assms
proof (induction cols arbitrary: i j)
  case Nil
  then show ?case by simp
next
  case (Cons c cols)
  show ?case
  proof (cases i)
    case 0
    then show ?thesis using sum_take_nonneg [OF Cons.prems(1), of j] by simp
  next
    case (Suc i')
    then obtain j' where j: "j = Suc j'" using Cons.prems(2) by (cases j) auto
    have "i' \<le> j'" using Suc j Cons.prems(2) by simp
    then have "sum_list (map snd (take i' cols)) \<le> sum_list (map snd (take j' cols))"
      using Cons.IH Cons.prems(1) by simp
    then show ?thesis using Suc j by simp
  qed
qed

lemma positive_nth:
  fixes cols :: "(string \<times> int) list"
  shows "list_all (\<lambda>(n, len). 0 < len) cols \<Longrightarrow> i < length cols \<Longrightarrow> 0 < snd (cols ! i)"
proof -
  assume a: "list_all (\<lambda>(n, len). 0 < len) cols" and i: "i < length cols"
  have "cols ! i \<in> set cols" using i by simp
  then have "(\<lambda>(n, len). 0 < len) (cols ! i)" using a by (simp add: list_all_iff)
  then show ?thesis by (cases "cols ! i") simp
qed

text \<open>What the loop leaves in the locals when it starts from the initial values.\<close>

lemma collect_loop_init:
  assumes "columns_of ls = Inr cols"
  shows "collect_loop cc init_state ls =
       Inr \<lparr>all_columns = fst ` set cols,
            offset = sum_list (map snd cols),
            with_lengths = map (\<lambda>(n, len). render_length cc n len) cols,
            with_offsets = map render_range (offset_ranges 0 cols)\<rparr>"
proof -
  let ?st = "add_columns cc init_state cols"
  have "collect_loop cc init_state ls = Inr ?st"
    using assms by (simp add: collect_loop_columns)
  moreover have "all_columns ?st = fst ` set cols"
    using columns_of_upper_image [OF assms]
    by (simp add: add_columns_all_columns init_state_def)
  moreover have "offset ?st = sum_list (map snd cols)"
    by (simp add: add_columns_offset init_state_def)
  moreover have "with_lengths ?st = map (\<lambda>(n, len). render_length cc n len) cols"
    by (simp add: add_columns_with_lengths init_state_def)
  moreover have "with_offsets ?st = map render_range (offset_ranges 0 cols)"
    by (simp add: add_columns_with_offsets init_state_def)
  ultimately show ?thesis by simp
qed

lemma demo_lines_columns: "columns_of demo_lines = Inr [(''NAME'', 10), (''ADDR'', 20)]"
  by code_simp

lemma columns_of_lines:
  "columns_of ls = Inr cols \<Longrightarrow>
     length cols \<le> length ls \<and> (\<forall>i<length cols. parse_line (ls ! i) = Inr (cols ! i))"
proof (induction ls arbitrary: cols)
  case Nil
  then show ?case by simp
next
  case (Cons l ls)
  show ?case
  proof (cases "parse_line l")
    case (Inl e)
    then show ?thesis using Cons.prems by simp
  next
    case (Inr nl)
    obtain n len where nl: "nl = (n, len)" by (cases nl)
    show ?thesis
    proof (cases "n = ''EOR''")
      case True
      then show ?thesis using Cons.prems Inr nl by simp
    next
      case False
      then obtain cs where cs: "columns_of ls = Inr cs" and c: "cols = (n, len) # cs"
        using Cons.prems Inr nl by (auto split: sum.splits)
      have ih: "length cs \<le> length ls \<and> (\<forall>i<length cs. parse_line (ls ! i) = Inr (cs ! i))"
        using Cons.IH [OF cs] .
      show ?thesis
        unfolding c using ih Inr nl by (auto simp: nth_Cons split: nat.splits)
    qed
  qed
qed

lemma columns_of_line_names:
  assumes "columns_of ls = Inr cols" and "i < length cols"
  shows "fst (cols ! i) = line_name (ls ! i)"
proof -
  have "parse_line (ls ! i) = Inr (cols ! i)"
    using columns_of_lines [OF assms(1)] assms(2) by simp
  then have "parse_line (ls ! i) = Inr (fst (cols ! i), snd (cols ! i))" by simp
  then show ?thesis by (rule parse_line_name)
qed

lemma demo_city_columns: "columns_of demo_city_lines = Inr [(''CITY'', 15), (''NAME'', 10)]"
  by code_simp

lemma str_int_15: "str_int 15 = ''15''"
  by code_simp

lemma str_int_10: "str_int 10 = ''10''"
  by code_simp

lemma set_xor_self: "set_xor a a = {}"
  by (simp add: set_xor_def)

lemma set_xor_empty_iff: "set_xor a b = {} \<longleftrightarrow> a = b"
  by (auto simp: set_xor_def)

section \<open>Offsets\<close>

text \<open>
  C1. For a descriptor whose consumed lines all carry a positive length, the ranges
  that \<^verbatim>\<open>collect_columns\<close> renders into the field-position fragment are those of
  \<^const>\<open>offset_ranges\<close> from offset 0, and they are contiguous and do not overlap: the
  first range starts at 1, every range ends at \<open>first + length - 1\<close> (so it is not
  empty), every later range starts one after the end of the range before it, and
  a range ends before any later range starts.
\<close>

theorem offset_ranges_contiguous:
  assumes opened: "open_lines w path = Some ls"
      and cols: "columns_of ls = Inr cols"
      and pos: "list_all (\<lambda>(n, len). 0 < len) cols"
      and rs: "rs = offset_ranges 0 cols"
  shows "(\<exists>st. collect_loop cc init_state ls = Inr st \<and> with_offsets st = map render_range rs)
       \<and> (\<forall>evs rv. collect_columns w path cc db = (evs, Inr rv) \<longrightarrow>
             columns_with_offsets rv = join ('','' @ [NL] @ ''       '') (map render_range rs))
       \<and> length rs = length cols
       \<and> (rs \<noteq> [] \<longrightarrow> r_first (rs ! 0) = 1)
       \<and> (\<forall>i<length rs. r_name (rs ! i) = fst (cols ! i)
                       \<and> r_last (rs ! i) = r_first (rs ! i) + snd (cols ! i) - 1
                       \<and> r_first (rs ! i) \<le> r_last (rs ! i))
       \<and> (\<forall>i. Suc i < length rs \<longrightarrow> r_first (rs ! Suc i) = r_last (rs ! i) + 1)
       \<and> (\<forall>i j. i < j \<and> j < length rs \<longrightarrow> r_last (rs ! i) < r_first (rs ! j))"
proof -
  have len: "length rs = length cols"
    by (simp add: rs offset_ranges_length)
  have loop: "\<exists>st. collect_loop cc init_state ls = Inr st \<and> with_offsets st = map render_range rs"
    by (simp add: collect_loop_init [OF cols] rs)
  have ret: "\<forall>evs rv. collect_columns w path cc db = (evs, Inr rv) \<longrightarrow>
             columns_with_offsets rv = join ('','' @ [NL] @ ''       '') (map render_range rs)"
    by (auto simp: collect_columns_def opened collect_loop_init [OF cols] rs Let_def
             split: if_splits)
  have first: "rs \<noteq> [] \<longrightarrow> r_first (rs ! 0) = 1"
  proof
    assume "rs \<noteq> []"
    then have "0 < length cols" using len by (cases rs) auto
    then show "r_first (rs ! 0) = 1" by (simp add: rs offset_ranges_nth)
  qed
  have each: "\<forall>i<length rs. r_name (rs ! i) = fst (cols ! i)
                       \<and> r_last (rs ! i) = r_first (rs ! i) + snd (cols ! i) - 1
                       \<and> r_first (rs ! i) \<le> r_last (rs ! i)"
  proof (intro allI impI)
    fix i assume i: "i < length rs"
    then have ic: "i < length cols" using len by simp
    have "sum_list (map snd (take (Suc i) cols)) = sum_list (map snd (take i cols)) + snd (cols ! i)"
      using ic by (simp add: take_Suc_conv_app_nth)
    moreover have "0 < snd (cols ! i)" using positive_nth [OF pos ic] .
    ultimately show "r_name (rs ! i) = fst (cols ! i)
                       \<and> r_last (rs ! i) = r_first (rs ! i) + snd (cols ! i) - 1
                       \<and> r_first (rs ! i) \<le> r_last (rs ! i)"
      using ic by (simp add: rs offset_ranges_nth)
  qed
  have nxt: "\<forall>i. Suc i < length rs \<longrightarrow> r_first (rs ! Suc i) = r_last (rs ! i) + 1"
    using len by (simp add: rs offset_ranges_nth)
  have apart: "\<forall>i j. i < j \<and> j < length rs \<longrightarrow> r_last (rs ! i) < r_first (rs ! j)"
  proof (intro allI impI)
    fix i j assume ij: "i < j \<and> j < length rs"
    then have "sum_list (map snd (take (Suc i) cols)) \<le> sum_list (map snd (take j cols))"
      using sum_take_mono [OF pos, of "Suc i" j] by simp
    then show "r_last (rs ! i) < r_first (rs ! j)"
      using ij len by (simp add: rs offset_ranges_nth)
  qed
  show ?thesis using len loop ret first each nxt apart by blast
qed

theorem offset_ranges_contiguous_witness:
  "open_lines (demo_world (Some demo_lines) [] [''NAME'', ''ADDR'']) ''cope.fmt'' = Some demo_lines
   \<and> columns_of demo_lines = Inr [(''NAME'', 10), (''ADDR'', 20)]
   \<and> list_all (\<lambda>(n, len). 0 < len) [(''NAME'', 10 :: int), (''ADDR'', 20)]
   \<and> offset_ranges 0 [(''NAME'', 10), (''ADDR'', 20)] =
        [\<lparr>r_name = ''NAME'', r_first = 1, r_last = 10\<rparr>,
         \<lparr>r_name = ''ADDR'', r_first = 11, r_last = 30\<rparr>]
   \<and> r_first (offset_ranges 0 [(''NAME'', 10), (''ADDR'', 20)] ! 0) = 1
   \<and> r_first (offset_ranges 0 [(''NAME'', 10), (''ADDR'', 20)] ! 1) =
       r_last (offset_ranges 0 [(''NAME'', 10), (''ADDR'', 20)] ! 0) + 1
   \<and> r_last (offset_ranges 0 [(''NAME'', 10), (''ADDR'', 20)] ! 0) <
       r_first (offset_ranges 0 [(''NAME'', 10), (''ADDR'', 20)] ! 1)"
proof -
  have h1: "open_lines (demo_world (Some demo_lines) [] [''NAME'', ''ADDR'']) ''cope.fmt''
              = Some demo_lines"
    by (simp add: demo_world_def)
  have h3: "list_all (\<lambda>(n, len). 0 < len) [(''NAME'', 10 :: int), (''ADDR'', 20)]"
    by simp
  note t = offset_ranges_contiguous [OF h1 demo_lines_columns h3 refl, of "{}" "{}"]
  show ?thesis using h1 demo_lines_columns h3 t by simp
qed

section \<open>Length units\<close>

text \<open>
  C5. For every column the loop consumes, the entry of the column-definition fragment
  is \<^verbatim>\<open>NAME VARCHAR2(length UNIT)\<close>, where \<^verbatim>\<open>NAME\<close> is the upper-cased first field
  of the column's line and the unit is \<^verbatim>\<open>CHAR\<close> exactly when that upper-cased name is in
  the character-semantics set handed to \<^verbatim>\<open>collect_columns\<close>, and \<^verbatim>\<open>BYTE\<close> otherwise;
  the returned fragment is the join of these entries, one per column, in order.
\<close>

theorem unit_follows_char_columns:
  assumes opened: "open_lines w path = Some ls"
      and cols: "columns_of ls = Inr cols"
      and defs: "defs = map (\<lambda>(n, len). n @ '' VARCHAR2('' @ str_int len @ '' '' @
                                (if n \<in> cc then ''CHAR'' else ''BYTE'') @ '')'') cols"
  shows "(\<exists>st. collect_loop cc init_state ls = Inr st \<and> with_lengths st = defs)
       \<and> (\<forall>evs rv. collect_columns w path cc db = (evs, Inr rv) \<longrightarrow>
             columns_with_lengths rv = join ('','' @ [NL] @ ''    '') defs)
       \<and> (\<forall>i<length cols. fst (cols ! i) = line_name (ls ! i))"
proof -
  have r: "map (\<lambda>(n, len). render_length cc n len) cols = defs"
    by (simp add: defs render_length_def)
  have loop: "\<exists>st. collect_loop cc init_state ls = Inr st \<and> with_lengths st = defs"
    by (simp add: collect_loop_init [OF cols] r)
  have ret: "\<forall>evs rv. collect_columns w path cc db = (evs, Inr rv) \<longrightarrow>
             columns_with_lengths rv = join ('','' @ [NL] @ ''    '') defs"
    by (auto simp: collect_columns_def opened collect_loop_init [OF cols] r Let_def
             split: if_splits)
  have names: "\<forall>i<length cols. fst (cols ! i) = line_name (ls ! i)"
    using columns_of_line_names [OF cols] by blast
  show ?thesis using loop ret names by blast
qed

theorem unit_follows_char_columns_witness:
  "open_lines (demo_world (Some demo_city_lines) [''CITY''] [''CITY'', ''NAME'']) ''cope.fmt''
     = Some demo_city_lines
   \<and> columns_of demo_city_lines = Inr [(''CITY'', 15), (''NAME'', 10)]
   \<and> (\<exists>st. collect_loop {''CITY''} init_state demo_city_lines = Inr st
            \<and> with_lengths st = [''CITY VARCHAR2(15 CHAR)'', ''NAME VARCHAR2(10 BYTE)''])
   \<and> ''CITY'' = line_name (demo_city_lines ! 0)"
proof -
  have h1: "open_lines (demo_world (Some demo_city_lines) [''CITY''] [''CITY'', ''NAME''])
              ''cope.fmt'' = Some demo_city_lines"
    by (simp add: demo_world_def)
  note t = unit_follows_char_columns [OF h1 demo_city_columns refl, of "{''CITY''}" "{}"]
  have lens: "\<exists>st. collect_loop {''CITY''} init_state demo_city_lines = Inr st
            \<and> with_lengths st = [''CITY VARCHAR2(15 CHAR)'', ''NAME VARCHAR2(10 BYTE)'']"
    using t by (simp add: str_int_15 str_int_10)
  have "\<forall>i<length [(''CITY'', 15::int), (''NAME'', 10)].
          fst ([(''CITY'', 15::int), (''NAME'', 10)] ! i) = line_name (demo_city_lines ! i)"
    using t by blast
  then have name: "''CITY'' = line_name (demo_city_lines ! 0)"
    by force
  show ?thesis using h1 demo_city_columns lens name by blast
qed

section \<open>The sentinel\<close>

lemma process_line_sentinel:
  "line_name l = ''EOR'' \<Longrightarrow>
     process_line cc st l = (case parse_line l of Inl e \<Rightarrow> Raise e | Inr nl \<Rightarrow> Break)"
  by (auto simp: process_line_def split: sum.splits dest: parse_line_name)

lemma collect_loop_sentinel:
  "line_name l = ''EOR'' \<Longrightarrow>
     collect_loop cc st (pre @ l # post) = collect_loop cc st (pre @ [l])"
proof (induction pre arbitrary: st)
  case Nil
  then show ?case by (simp add: process_line_sentinel split: sum.splits)
next
  case (Cons p pre)
  then show ?case by (simp split: step.splits)
qed

lemma columns_of_before_sentinel:
  assumes "line_name l = ''EOR''"
  shows "list_all (\<lambda>p. line_name p \<noteq> ''EOR'') pre \<Longrightarrow>
         columns_of (pre @ l # post) = Inr cols \<Longrightarrow> map parse_line pre = map Inr cols"
proof (induction pre arbitrary: cols)
  case Nil
  then show ?case
    using assms by (auto split: sum.splits prod.splits if_splits dest: parse_line_name)
next
  case (Cons p pre)
  then show ?case
    by (auto split: sum.splits prod.splits if_splits dest: parse_line_name)
qed

text \<open>
  C6. When a line's first field upper-cases to \<^verbatim>\<open>EOR\<close> and no earlier line's does, the
  loop behaves on the whole descriptor as on the descriptor cut after that line: the
  lines after the sentinel are not read, whatever they hold, and \<^verbatim>\<open>collect_columns\<close>
  gives the same run. When the loop ends normally, its columns are exactly the lines
  before the sentinel, so no column named \<^verbatim>\<open>EOR\<close> is in the name set, and the two lists
  of rendered fragments have one entry for each of those lines and none for the
  sentinel.
\<close>

theorem sentinel_stops_parsing:
  assumes eor: "line_name l = ''EOR''"
      and pre: "list_all (\<lambda>p. line_name p \<noteq> ''EOR'') pre"
  shows "collect_loop cc init_state (pre @ l # post) = collect_loop cc init_state (pre @ [l])
       \<and> (\<forall>w w' path. open_lines w path = Some (pre @ l # post) \<and>
                       open_lines w' path = Some (pre @ [l]) \<longrightarrow>
              collect_columns w path cc db = collect_columns w' path cc db)
       \<and> (\<forall>st. collect_loop cc init_state (pre @ l # post) = Inr st \<longrightarrow>
            (\<exists>cols. map parse_line pre = map Inr cols
                  \<and> all_columns st = fst ` set cols
                  \<and> ''EOR'' \<notin> all_columns st
                  \<and> with_lengths st = map (\<lambda>(n, len). render_length cc n len) cols
                  \<and> with_offsets st = map render_range (offset_ranges 0 cols)))"
proof -
  have same: "collect_loop cc init_state (pre @ l # post) = collect_loop cc init_state (pre @ [l])"
    using eor by (rule collect_loop_sentinel)
  have ret: "\<forall>w w' path. open_lines w path = Some (pre @ l # post) \<and>
                       open_lines w' path = Some (pre @ [l]) \<longrightarrow>
              collect_columns w path cc db = collect_columns w' path cc db"
    by (simp add: collect_columns_def same)
  have cols: "\<forall>st. collect_loop cc init_state (pre @ l # post) = Inr st \<longrightarrow>
            (\<exists>cols. map parse_line pre = map Inr cols
                  \<and> all_columns st = fst ` set cols
                  \<and> ''EOR'' \<notin> all_columns st
                  \<and> with_lengths st = map (\<lambda>(n, len). render_length cc n len) cols
                  \<and> with_offsets st = map render_range (offset_ranges 0 cols))"
  proof (intro allI impI)
    fix st assume st: "collect_loop cc init_state (pre @ l # post) = Inr st"
    then obtain cols where c: "columns_of (pre @ l # post) = Inr cols"
      by (auto simp: collect_loop_columns split: sum.splits)
    have lines: "map parse_line pre = map Inr cols"
      using columns_of_before_sentinel [OF eor pre c] .
    have st_eq: "st = \<lparr>all_columns = fst ` set cols,
            offset = sum_list (map snd cols),
            with_lengths = map (\<lambda>(n, len). render_length cc n len) cols,
            with_offsets = map render_range (offset_ranges 0 cols)\<rparr>"
      using st collect_loop_init [OF c, of cc] by simp
    have "''EOR'' \<notin> fst ` set cols"
      using columns_of_names [OF c] by force
    then show "\<exists>cols. map parse_line pre = map Inr cols
                  \<and> all_columns st = fst ` set cols
                  \<and> ''EOR'' \<notin> all_columns st
                  \<and> with_lengths st = map (\<lambda>(n, len). render_length cc n len) cols
                  \<and> with_offsets st = map render_range (offset_ranges 0 cols)"
      using lines st_eq by (intro exI [of _ cols]) simp
  qed
  show ?thesis using same ret cols by blast
qed

theorem sentinel_stops_parsing_witness:
  "line_name (''eor,0'' @ [NL]) = ''EOR''
   \<and> list_all (\<lambda>p. line_name p \<noteq> ''EOR'') [''NAME,10'' @ [NL], ''ADDR,20'' @ [NL]]
   \<and> parse_line ''garbage'' = Inl IndexError
   \<and> collect_loop {} init_state
        ([''NAME,10'' @ [NL], ''ADDR,20'' @ [NL]] @ (''eor,0'' @ [NL]) # [''garbage'']) =
      collect_loop {} init_state
        ([''NAME,10'' @ [NL], ''ADDR,20'' @ [NL]] @ [''eor,0'' @ [NL]])"
proof -
  have h1: "line_name (''eor,0'' @ [NL]) = ''EOR''"
    by code_simp
  have h2: "list_all (\<lambda>p. line_name p \<noteq> ''EOR'') [''NAME,10'' @ [NL], ''ADDR,20'' @ [NL]]"
    by code_simp
  have h3: "parse_line ''garbage'' = Inl IndexError"
    by code_simp
  note t = sentinel_stops_parsing [OF h1 h2, of "{}" "[''garbage'']" "{}"]
  show ?thesis using h1 h2 h3 t by blast
qed

lemma columns_of_raise:
  "list_all is_column_line pre \<Longrightarrow> parse_line l = Inl e \<Longrightarrow>
     columns_of (pre @ l # post) = Inl e"
  by (induction pre) (auto simp: is_column_line_def split: sum.splits prod.splits)

lemma process_line_break:
  "(process_line cc st l = Break) = (\<exists>len. parse_line l = Inr (''EOR'', len))"
  by (auto simp: process_line_def split: sum.splits prod.splits if_splits)

text \<open>
  C9. The length of a line is evaluated before the sentinel test: a line ends the
  descriptor normally exactly when it parses, integer second field included, and its
  name is \<^verbatim>\<open>EOR\<close>. So a line that the loop reaches and that has no second field, or
  whose second field is not an integer, raises (\<^verbatim>\<open>IndexError\<close>, \<^verbatim>\<open>ValueError\<close>) whatever
  its first field is, a line that holds only \<^verbatim>\<open>EOR\<close> (with or without its newline) and
  a line \<^verbatim>\<open>EOR,x\<close> included: \<^verbatim>\<open>collect_columns\<close> logs the exception and quits, and
  the line is not taken as the end of the descriptor.
\<close>

theorem sentinel_needs_length:
  assumes opened: "open_lines w path = Some (pre @ l # post)"
      and pre: "list_all is_column_line pre"
      and parts: "split_on CHR '','' l = p0 # ps"
      and bad: "ps = [] \<or> py_int (hd ps) = None"
      and exn: "e = (if ps = [] then IndexError else ValueError (hd ps))"
  shows "parse_line l = Inl e
       \<and> process_line cc st l = Raise e
       \<and> collect_loop cc init_state (pre @ l # post) = Inl e
       \<and> collect_columns w path cc db =
           ([OpenDescriptor path, LogError (ExnText e)], Inl SysExit)
       \<and> (\<forall>st' l'. (process_line cc st' l' = Break) =
                     (\<exists>len. parse_line l' = Inr (''EOR'', len)))"
proof -
  have parse: "parse_line l = Inl e"
    using bad by (cases ps) (auto simp: parse_line_def parts exn Let_def)
  have step: "process_line cc st l = Raise e"
    by (simp add: process_line_def parse)
  have loop: "collect_loop cc init_state (pre @ l # post) = Inl e"
    by (simp add: collect_loop_columns columns_of_raise [OF pre parse])
  have run: "collect_columns w path cc db =
           ([OpenDescriptor path, LogError (ExnText e)], Inl SysExit)"
    by (simp add: collect_columns_def opened loop)
  show ?thesis using parse step loop run process_line_break by blast
qed

theorem sentinel_needs_length_witness:
  "list_all is_column_line [''NAME,10'' @ [NL]]
   \<and> split_on CHR '','' (''EOR'' @ [NL]) = (''EOR'' @ [NL]) # []
   \<and> split_on CHR '','' ''EOR'' = ''EOR'' # []
   \<and> split_on CHR '','' (''EOR,x'' @ [NL]) = ''EOR'' # [''x'' @ [NL]]
   \<and> split_on CHR '','' (''EOR,'' @ [CHR 0x1C] @ ''0'' @ [NL]) =
        ''EOR'' # [[CHR 0x1C] @ ''0'' @ [NL]]
   \<and> py_int (''x'' @ [NL]) = None
   \<and> py_int ([CHR 0x1C] @ ''0'' @ [NL]) = None
   \<and> collect_columns
       (demo_world (Some ([''NAME,10'' @ [NL]] @ (''EOR'' @ [NL]) # [''B,2'' @ [NL]])) [] [''NAME''])
       ''cope.fmt'' {} {''NAME''} =
     ([OpenDescriptor ''cope.fmt'', LogError (ExnText IndexError)], Inl SysExit)
   \<and> collect_columns (demo_world (Some ([''NAME,10'' @ [NL]] @ ''EOR'' # [])) [] [''NAME''])
       ''cope.fmt'' {} {''NAME''} =
     ([OpenDescriptor ''cope.fmt'', LogError (ExnText IndexError)], Inl SysExit)
   \<and> collect_columns
       (demo_world (Some ([''NAME,10'' @ [NL]] @ (''EOR,x'' @ [NL]) # [])) [] [''NAME''])
       ''cope.fmt'' {} {''NAME''} =
     ([OpenDescriptor ''cope.fmt'', LogError (ExnText (ValueError (''x'' @ [NL])))], Inl SysExit)
   \<and> collect_columns
       (demo_world (Some ([''NAME,10'' @ [NL]] @ (''EOR,'' @ [CHR 0x1C] @ ''0'' @ [NL]) # []))
          [] [''NAME''])
       ''cope.fmt'' {} {''NAME''} =
     ([OpenDescriptor ''cope.fmt'',
       LogError (ExnText (ValueError ([CHR 0x1C] @ ''0'' @ [NL])))], Inl SysExit)"
proof -
  have pre: "list_all is_column_line [''NAME,10'' @ [NL]]"
    by code_simp
  have o: "\<And>ls. open_lines (demo_world (Some ls) [] [''NAME'']) ''cope.fmt'' = Some ls"
    by (simp add: demo_world_def)
  have s0: "split_on CHR '','' (''EOR'' @ [NL]) = (''EOR'' @ [NL]) # []"
    by code_simp
  have s1: "split_on CHR '','' ''EOR'' = ''EOR'' # []"
    by code_simp
  have s2: "split_on CHR '','' (''EOR,x'' @ [NL]) = ''EOR'' # [''x'' @ [NL]]"
    by code_simp
  have s3: "split_on CHR '','' (''EOR,'' @ [CHR 0x1C] @ ''0'' @ [NL]) =
              ''EOR'' # [[CHR 0x1C] @ ''0'' @ [NL]]"
    by code_simp
  have n2: "py_int (''x'' @ [NL]) = None"
    by code_simp
  have n3: "py_int ([CHR 0x1C] @ ''0'' @ [NL]) = None"
    by code_simp
  have b1: "([] :: string list) = [] \<or> py_int (hd []) = None"
    by simp
  have e1: "IndexError = (if ([] :: string list) = [] then IndexError else ValueError (hd []))"
    by simp
  have b2: "[''x'' @ [NL]] = [] \<or> py_int (hd [''x'' @ [NL]]) = None"
    using n2 by simp
  have e2: "ValueError (''x'' @ [NL]) =
              (if [''x'' @ [NL]] = [] then IndexError else ValueError (hd [''x'' @ [NL]]))"
    by simp
  have b3: "[[CHR 0x1C] @ ''0'' @ [NL]] = [] \<or> py_int (hd [[CHR 0x1C] @ ''0'' @ [NL]]) = None"
    using n3 by simp
  have e3: "ValueError ([CHR 0x1C] @ ''0'' @ [NL]) =
              (if [[CHR 0x1C] @ ''0'' @ [NL]] = [] then IndexError
               else ValueError (hd [[CHR 0x1C] @ ''0'' @ [NL]]))"
    by simp
  note t0 = sentinel_needs_length
    [where post = "[''B,2'' @ [NL]]" and cc = "{}" and st = init_state and db = "{''NAME''}",
     OF o pre s0 b1 e1]
  note t1 = sentinel_needs_length
    [where post = "[]" and cc = "{}" and st = init_state and db = "{''NAME''}",
     OF o pre s1 b1 e1]
  note t2 = sentinel_needs_length
    [where post = "[]" and cc = "{}" and st = init_state and db = "{''NAME''}",
     OF o pre s2 b2 e2]
  note t3 = sentinel_needs_length
    [where post = "[]" and cc = "{}" and st = init_state and db = "{''NAME''}",
     OF o pre s3 b3 e3]
  show ?thesis using pre s0 s1 s2 s3 n2 n3 t0 t1 t2 t3 by blast
qed

section \<open>Duplicate names\<close>

lemma sum_take_split:
  fixes xs :: "int list"
  shows "i \<le> j \<Longrightarrow> sum_list (take j xs) = sum_list (take i xs) + sum_list (take (j - i) (drop i xs))"
proof -
  assume "i \<le> j"
  then have "take j xs = take i xs @ take (j - i) (drop i xs)"
    using take_add [of i "j - i" xs] by simp
  then show ?thesis by simp
qed

lemma demo_duplicate_columns:
  "columns_of demo_duplicate_lines = Inr [(''A'', 3), (''A'', 4)]"
  by code_simp

lemma str_int_small:
  "str_int 1 = ''1''" "str_int 3 = ''3''" "str_int 4 = ''4''" "str_int 7 = ''7''"
  by code_simp+

text \<open>
  C10. Reconciliation sees only the set of names. When the names of the consumed
  columns, as a set, are the authoritative set, \<^verbatim>\<open>collect_columns\<close> reports nothing and
  returns both fragments with one entry per consumed line. If two lines \<open>i < j\<close> carry
  the same upper-cased name, both are rendered, each with its own range, and the
  length of the earlier one is part of the offset of the later one.
\<close>

theorem duplicate_names_pass_reconciliation:
  assumes opened: "open_lines w path = Some ls"
      and cols: "columns_of ls = Inr cols"
      and names: "fst ` set cols = db"
      and ij: "i < j"
      and j: "j < length cols"
      and dup: "fst (cols ! i) = fst (cols ! j)"
      and rs: "rs = offset_ranges 0 cols"
  shows "collect_columns w path cc db =
           ([OpenDescriptor path],
            Inr \<lparr>columns_with_lengths =
                   join ('','' @ [NL] @ ''    '') (map (\<lambda>(n, len). render_length cc n len) cols),
                 columns_with_offsets =
                   join ('','' @ [NL] @ ''       '') (map render_range rs)\<rparr>)
       \<and> length rs = length cols
       \<and> r_name (rs ! i) = r_name (rs ! j)
       \<and> r_last (rs ! i) = r_first (rs ! i) + snd (cols ! i) - 1
       \<and> r_last (rs ! j) = r_first (rs ! j) + snd (cols ! j) - 1
       \<and> r_first (rs ! j) =
           r_first (rs ! i) + snd (cols ! i)
             + sum_list (map snd (take (j - Suc i) (drop (Suc i) cols)))"
proof -
  have i: "i < length cols" using ij j by simp
  have run: "collect_columns w path cc db =
           ([OpenDescriptor path],
            Inr \<lparr>columns_with_lengths =
                   join ('','' @ [NL] @ ''    '') (map (\<lambda>(n, len). render_length cc n len) cols),
                 columns_with_offsets =
                   join ('','' @ [NL] @ ''       '') (map render_range rs)\<rparr>)"
    by (simp add: collect_columns_def opened collect_loop_init [OF cols] names set_xor_self rs)
  have len: "length rs = length cols"
    by (simp add: rs offset_ranges_length)
  have nm: "r_name (rs ! i) = r_name (rs ! j)"
    using i j dup by (simp add: rs offset_ranges_nth)
  have si: "sum_list (map snd (take (Suc i) cols)) = sum_list (map snd (take i cols)) + snd (cols ! i)"
    using i by (simp add: take_Suc_conv_app_nth)
  have sj: "sum_list (map snd (take (Suc j) cols)) = sum_list (map snd (take j cols)) + snd (cols ! j)"
    using j by (simp add: take_Suc_conv_app_nth)
  have li: "r_last (rs ! i) = r_first (rs ! i) + snd (cols ! i) - 1"
    using i si by (simp add: rs offset_ranges_nth)
  have lj: "r_last (rs ! j) = r_first (rs ! j) + snd (cols ! j) - 1"
    using j sj by (simp add: rs offset_ranges_nth)
  have "sum_list (take j (map snd cols)) =
          sum_list (take (Suc i) (map snd cols))
            + sum_list (take (j - Suc i) (drop (Suc i) (map snd cols)))"
    using ij by (intro sum_take_split) simp
  then have "sum_list (map snd (take j cols)) =
          sum_list (map snd (take i cols)) + snd (cols ! i)
            + sum_list (map snd (take (j - Suc i) (drop (Suc i) cols)))"
    using si by (simp add: take_map drop_map)
  then have fj: "r_first (rs ! j) =
           r_first (rs ! i) + snd (cols ! i)
             + sum_list (map snd (take (j - Suc i) (drop (Suc i) cols)))"
    using i j by (simp add: rs offset_ranges_nth)
  show ?thesis using run len nm li lj fj by blast
qed

theorem duplicate_names_pass_reconciliation_witness:
  "columns_of demo_duplicate_lines = Inr [(''A'', 3), (''A'', 4)]
   \<and> fst ` set [(''A'', 3 :: int), (''A'', 4)] = {''A''}
   \<and> collect_columns (demo_world (Some demo_duplicate_lines) [] [''A'']) ''cope.fmt'' {} {''A''} =
       ([OpenDescriptor ''cope.fmt''],
        Inr \<lparr>columns_with_lengths =
               ''A VARCHAR2(3 BYTE),'' @ [NL] @ ''    A VARCHAR2(4 BYTE)'',
             columns_with_offsets =
               [DQ] @ ''A'' @ [DQ] @ [TAB] @ ''POSITION(1:3),'' @ [NL] @ ''       '' @
               [DQ] @ ''A'' @ [DQ] @ [TAB] @ ''POSITION(4:7)''\<rparr>)"
proof -
  have h1: "open_lines (demo_world (Some demo_duplicate_lines) [] [''A'']) ''cope.fmt''
              = Some demo_duplicate_lines"
    by (simp add: demo_world_def)
  have h3: "fst ` set [(''A'', 3 :: int), (''A'', 4)] = {''A''}"
    by simp
  have h4: "(0::nat) < 1" by simp
  have h5: "1 < length [(''A'', 3 :: int), (''A'', 4)]" by simp
  have h6: "fst ([(''A'', 3 :: int), (''A'', 4)] ! 0) = fst ([(''A'', 3 :: int), (''A'', 4)] ! 1)"
    by simp
  note t = duplicate_names_pass_reconciliation
             [OF h1 demo_duplicate_columns h3 h4 h5 h6 refl, of "{}"]
  show ?thesis
    using demo_duplicate_columns h3 t
    by (simp add: render_length_def render_range_def render_position_def str_int_small)
qed

section \<open>Reconciliation and the order of the lines\<close>

lemma reports_discrepancy_name_set:
  "reports_discrepancy (collect_columns w path cc db) =
     (case open_lines w path of
        None \<Rightarrow> False
      | Some ls \<Rightarrow> (case name_set ls of None \<Rightarrow> False | Some s \<Rightarrow> s \<noteq> db))"
proof (cases "open_lines w path")
  case None
  then show ?thesis by (simp add: reports_discrepancy_def collect_columns_def)
next
  case (Some ls)
  show ?thesis
  proof (cases "columns_of ls")
    case (Inl e)
    then show ?thesis
      by (simp add: reports_discrepancy_def collect_columns_def Some collect_loop_columns
                    name_set_def)
  next
    case (Inr cols)
    then show ?thesis
      using set_xor_empty_iff [of db "fst ` set cols"]
      by (auto simp: reports_discrepancy_def collect_columns_def Some collect_loop_init [OF Inr]
                     name_set_def Let_def)
  qed
qed

lemma name_set_append:
  "list_all (\<lambda>p. line_name p \<noteq> ''EOR'') pre \<Longrightarrow>
     name_set (pre @ rest) =
       (if list_ex (\<lambda>p. isl (parse_line p)) pre then None
        else (case name_set rest of
                None \<Rightarrow> None
              | Some s \<Rightarrow> Some (line_name ` set pre \<union> s)))"
proof (induction pre)
  case Nil
  then show ?case by (simp split: option.splits)
next
  case (Cons p pre)
  then have ih: "name_set (pre @ rest) =
       (if list_ex (\<lambda>p. isl (parse_line p)) pre then None
        else (case name_set rest of
                None \<Rightarrow> None
              | Some s \<Rightarrow> Some (line_name ` set pre \<union> s)))"
    and p: "line_name p \<noteq> ''EOR''" by simp_all
  show ?case
  proof (cases "parse_line p")
    case (Inl e)
    then show ?thesis by (simp add: name_set_def)
  next
    case (Inr nl)
    obtain n len where nl: "nl = (n, len)" by (cases nl)
    have n: "n = line_name p" using Inr nl by (simp add: parse_line_name)
    have step: "name_set (p # pre @ rest) = map_option (insert n) (name_set (pre @ rest))"
      using Inr nl n p by (simp add: name_set_def split: sum.splits)
    show ?thesis
      using step ih Inr n by (simp split: option.splits)
  qed
qed

text \<open>
  C7, as stated, fails: a permutation may move a line across the sentinel. With the
  authoritative set \<^verbatim>\<open>{A, B}\<close>, the descriptor \<^verbatim>\<open>A,1 / EOR,0 / B,2\<close> reports a
  discrepancy and its permutation \<^verbatim>\<open>A,1 / B,2 / EOR,0\<close> does not.
\<close>

theorem permuted_lines_counterexample:
  "mset demo_sentinel_middle = mset demo_sentinel_last
   \<and> reports_discrepancy
       (collect_columns (demo_world (Some demo_sentinel_middle) [] [''A'', ''B''])
          ''cope.fmt'' {} {''A'', ''B''})
   \<and> \<not> reports_discrepancy
       (collect_columns (demo_world (Some demo_sentinel_last) [] [''A'', ''B''])
          ''cope.fmt'' {} {''A'', ''B''})"
proof -
  have m: "mset demo_sentinel_middle = mset demo_sentinel_last"
    by (simp add: demo_sentinel_middle_def demo_sentinel_last_def)
  have n1: "name_set demo_sentinel_middle = Some {''A''}"
    by (simp add: name_set_def) code_simp
  have n2: "name_set demo_sentinel_last = Some {''A'', ''B''}"
    by (simp add: name_set_def) code_simp
  show ?thesis
    using m by (simp add: reports_discrepancy_name_set demo_world_def n1 n2) 
qed

text \<open>
  C7, amended. Permuting the lines that stand before the first sentinel line, the
  sentinel and everything after it staying in place (or permuting all lines of a
  descriptor without a sentinel), does not change whether \<^verbatim>\<open>collect_columns\<close> reports
  a discrepancy.
\<close>

theorem reconciliation_order_independent:
  assumes opened: "open_lines w path = Some (pre @ rest)"
      and opened': "open_lines w' path' = Some (pre' @ rest)"
      and perm: "mset pre' = mset pre"
      and pre: "list_all (\<lambda>p. line_name p \<noteq> ''EOR'') pre"
  shows "reports_discrepancy (collect_columns w path cc db) =
         reports_discrepancy (collect_columns w' path' cc db)"
proof -
  have s: "set pre' = set pre" using perm by (rule mset_eq_setD)
  have pre': "list_all (\<lambda>p. line_name p \<noteq> ''EOR'') pre'"
    using pre s by (simp add: list_all_iff)
  have "name_set (pre' @ rest) = name_set (pre @ rest)"
    using name_set_append [OF pre, of rest] name_set_append [OF pre', of rest]
    unfolding list_ex_iff s by simp
  then show ?thesis
    by (simp add: reports_discrepancy_name_set opened opened')
qed

theorem reconciliation_order_independent_witness:
  "mset [''B,2'' @ [NL], ''A,1'' @ [NL]] = mset [''A,1'' @ [NL], ''B,2'' @ [NL]]
   \<and> list_all (\<lambda>p. line_name p \<noteq> ''EOR'') [''A,1'' @ [NL], ''B,2'' @ [NL]]
   \<and> reports_discrepancy
        (collect_columns
           (demo_world (Some ([''A,1'' @ [NL], ''B,2'' @ [NL]] @ [''EOR,0'' @ [NL]])) [] [''A''])
           ''cope.fmt'' {} {''A''}) =
      reports_discrepancy
        (collect_columns
           (demo_world (Some ([''B,2'' @ [NL], ''A,1'' @ [NL]] @ [''EOR,0'' @ [NL]])) [] [''A''])
           ''cope.fmt'' {} {''A''})"
proof -
  have h1: "open_lines
              (demo_world (Some ([''A,1'' @ [NL], ''B,2'' @ [NL]] @ [''EOR,0'' @ [NL]])) [] [''A''])
              ''cope.fmt'' = Some ([''A,1'' @ [NL], ''B,2'' @ [NL]] @ [''EOR,0'' @ [NL]])"
    by (simp add: demo_world_def)
  have h2: "open_lines
              (demo_world (Some ([''B,2'' @ [NL], ''A,1'' @ [NL]] @ [''EOR,0'' @ [NL]])) [] [''A''])
              ''cope.fmt'' = Some ([''B,2'' @ [NL], ''A,1'' @ [NL]] @ [''EOR,0'' @ [NL]])"
    by (simp add: demo_world_def)
  have h3: "mset [''B,2'' @ [NL], ''A,1'' @ [NL]] = mset [''A,1'' @ [NL], ''B,2'' @ [NL]]"
    by simp
  have h4: "list_all (\<lambda>p. line_name p \<noteq> ''EOR'') [''A,1'' @ [NL], ''B,2'' @ [NL]]"
    by code_simp
  note t = reconciliation_order_independent [OF h1 h2 h3 h4, of "{}" "{''A''}"]
  show ?thesis using h3 h4 t by blast
qed

section \<open>The outcomes of a run\<close>

lemma expand_args_cases:
  assumes "expand_args w a = (e, r)"
  shows "(\<exists>ar. e = [] \<and> r = Inr ar \<and> fmt_path ar = fmt_path a \<and> show_only ar = show_only a
               \<and> table_name ar = ''NEW_MEMBER_'' @ affiliate_acronym a @ ''_EXT'')
       \<or> (\<exists>m. e = [LogError m] \<and> r = Inl SysExit)
       \<or> (e = [] \<and> r = Inl (Uncaught ConfigParserError))"
  using assms
  by (auto simp: expand_args_def log_and_quit_def Let_def
           split: if_splits config.splits option.splits cfg_value.splits)

lemma collect_columns_cases:
  assumes "collect_columns w path cc db = (e, r)"
  shows "(e = [OpenDescriptor path] \<and> (\<exists>rv. r = Inr rv))
       \<or> (\<exists>ev. e = [OpenDescriptor path, ev] \<and> is_report ev \<and> r = Inl SysExit)"
  using assms
  by (auto simp: collect_columns_def Let_def split: option.splits sum.splits if_splits)

lemma report_is_no_ddl: "is_report ev \<Longrightarrow> \<not> is_callproc ev \<and> \<not> is_print_ddl ev"
  by (cases ev) auto

lemma gen_ddl_cases:
  assumes "gen_ddl w ar = (e, r)"
  shows "\<not> list_ex is_callproc e \<and> \<not> list_ex is_print_ddl e \<and>
         ((\<exists>ddl. r = Inr ddl)
          \<or> (r = Inl SysExit \<and> e \<noteq> [] \<and> is_report (last e))
          \<or> r = Inl (Uncaught DatabaseError))"
proof (cases "char_rows w")
  case None
  then show ?thesis using assms by (auto simp: gen_ddl_def)
next
  case (Some crows)
  note c = Some
  show ?thesis
  proof (cases "all_rows w")
    case None
    then show ?thesis using assms c by (auto simp: gen_ddl_def)
  next
    case (Some arows)
    obtain e' r' where cc: "collect_columns w (fmt_path ar) (set crows) (set arows) = (e', r')"
      by (cases "collect_columns w (fmt_path ar) (set crows) (set arows)")
    from collect_columns_cases [OF cc] show ?thesis
      using assms c Some cc
      by (auto simp: gen_ddl_def Let_def split: sum.splits dest: report_is_no_ddl)
  qed
qed

text \<open>The script, by the outcome of its steps.\<close>

lemma main_cases:
  "(\<exists>m. main w a = ([LogError m], Inl SysExit))
   \<or> main w a = ([], Inl (Uncaught ConfigParserError))
   \<or> (\<exists>ar. expand_args w a = ([], Inr ar) \<and>
        (main w a = ([Connect (username ar) (password ar) (dbname ar)],
                     Inl (Uncaught DatabaseError))
         \<or> (\<exists>e3 r3. gen_ddl w ar = (e3, r3) \<and>
               connect_ok w (username ar) (password ar) (dbname ar) \<and>
               (case r3 of
                  Inl x \<Rightarrow>
                    main w a = (Connect (username ar) (password ar) (dbname ar) # e3, Inl x)
                | Inr ddl \<Rightarrow>
                    main w a =
                      (if show_only ar
                       then (Connect (username ar) (password ar) (dbname ar) # e3
                               @ [PrintDDL ddl], Inr ())
                       else (Connect (username ar) (password ar) (dbname ar) # e3
                               @ [CallProc (table_name ar) ddl],
                             if callproc_ok w then Inr () else Inl (Uncaught DatabaseError)))))))"
proof -
  obtain e1 r1 where ea: "expand_args w a = (e1, r1)" by (cases "expand_args w a")
  from expand_args_cases [OF ea] show ?thesis
  proof (elim disjE exE conjE)
    fix ar assume h: "e1 = []" "r1 = Inr ar"
    obtain e3 r3 where g: "gen_ddl w ar = (e3, r3)" by (cases "gen_ddl w ar")
    show ?thesis
      using ea h g
      by (cases r3) (auto simp: main_def get_cursor_def create_table_def)
  next
    fix m assume "e1 = [LogError m]" "r1 = Inl SysExit"
    then show ?thesis using ea by (simp add: main_def)
  next
    assume "e1 = []" "r1 = Inl (Uncaught ConfigParserError)"
    then show ?thesis using ea by (simp add: main_def)
  qed
qed

lemma main_outcome:
  "(snd (main w a) = Inr () \<and>
      (\<exists>ar ddl e3. expand_args w a = ([], Inr ar) \<and> gen_ddl w ar = (e3, Inr ddl) \<and>
         fst (main w a) \<noteq> [] \<and>
         last (fst (main w a)) =
           (if show_only a then PrintDDL ddl else CallProc (table_name ar) ddl)))
   \<or> (snd (main w a) = Inl SysExit \<and> fst (main w a) \<noteq> [] \<and>
       is_report (last (fst (main w a))) \<and>
       \<not> list_ex is_callproc (fst (main w a)) \<and> \<not> list_ex is_print_ddl (fst (main w a)))
   \<or> ((snd (main w a) = Inl (Uncaught DatabaseError) \<or>
        snd (main w a) = Inl (Uncaught ConfigParserError)) \<and>
       \<not> list_ex is_print_ddl (fst (main w a)))"
proof -
  from main_cases [of w a] show ?thesis
  proof (elim disjE exE conjE)
    fix m assume "main w a = ([LogError m], Inl SysExit)"
    then show ?thesis by simp
  next
    assume "main w a = ([], Inl (Uncaught ConfigParserError))"
    then show ?thesis by simp
  next
    fix ar
    assume "main w a = ([Connect (username ar) (password ar) (dbname ar)],
                        Inl (Uncaught DatabaseError))"
    then show ?thesis by simp
  next
    fix ar e3 r3
    assume ea: "expand_args w a = ([], Inr ar)"
       and g: "gen_ddl w ar = (e3, r3)"
       and m: "case r3 of
                  Inl x \<Rightarrow>
                    main w a = (Connect (username ar) (password ar) (dbname ar) # e3, Inl x)
                | Inr ddl \<Rightarrow>
                    main w a =
                      (if show_only ar
                       then (Connect (username ar) (password ar) (dbname ar) # e3
                               @ [PrintDDL ddl], Inr ())
                       else (Connect (username ar) (password ar) (dbname ar) # e3
                               @ [CallProc (table_name ar) ddl],
                             if callproc_ok w then Inr () else Inl (Uncaught DatabaseError)))"
    have so: "show_only ar = show_only a"
      using expand_args_cases [OF ea] by auto
    note gc = gen_ddl_cases [OF g]
    show ?thesis
    proof (cases r3)
      case (Inl x)
      then have mm: "main w a = (Connect (username ar) (password ar) (dbname ar) # e3, Inl x)"
        using m by simp
      show ?thesis using gc Inl mm by auto
    next
      case (Inr ddl)
      show ?thesis
      proof (cases "show_only ar")
        case True
        then have "main w a = (Connect (username ar) (password ar) (dbname ar) # e3
                               @ [PrintDDL ddl], Inr ())"
          using m Inr by simp
        then show ?thesis using ea g Inr so True by auto
      next
        case False
        then have "main w a = (Connect (username ar) (password ar) (dbname ar) # e3
                               @ [CallProc (table_name ar) ddl],
                             if callproc_ok w then Inr () else Inl (Uncaught DatabaseError))"
          using m Inr by simp
        then show ?thesis using ea g Inr so False gc by auto
      qed
    qed
  qed
qed

lemma demo_expand_args:
  "expand_args (demo_world fmt crows arows) (demo_cli acronym) = ([], Inr (demo_args acronym))"
  by (simp add: expand_args_def demo_world_def demo_cli_def demo_cfg_def demo_args_def)

lemma demo_main_missing_descriptor:
  "main (demo_world None crows arows) (demo_cli acronym) =
     ([Connect ''cope'' ''secret'' ''orcl'', Execute CharSemanticsQuery, Execute AllColumnsQuery,
       OpenDescriptor ''cope.fmt'', LogError (ExnText (OSError ''cope.fmt''))],
      Inl SysExit)"
proof -
  have c: "collect_columns (demo_world None crows arows) ''cope.fmt'' (set crows) (set arows) =
             ([OpenDescriptor ''cope.fmt'', LogError (ExnText (OSError ''cope.fmt''))], Inl SysExit)"
    by (simp add: collect_columns_def demo_world_def)
  have r: "char_rows (demo_world None crows arows) = Some crows"
          "all_rows (demo_world None crows arows) = Some arows"
          "connect_ok (demo_world None crows arows) ''cope'' ''secret'' ''orcl''"
    by (simp_all add: demo_world_def)
  have f: "fmt_path (demo_args acronym) = ''cope.fmt''"
          "username (demo_args acronym) = ''cope''"
          "password (demo_args acronym) = ''secret''"
          "dbname (demo_args acronym) = ''orcl''"
    by (simp_all add: demo_args_def)
  have g: "gen_ddl (demo_world None crows arows) (demo_args acronym) =
             ([Execute CharSemanticsQuery, Execute AllColumnsQuery,
               OpenDescriptor ''cope.fmt'', LogError (ExnText (OSError ''cope.fmt''))],
              Inl SysExit)"
    by (simp add: gen_ddl_def r f c)
  show ?thesis
    by (simp add: main_def demo_expand_args get_cursor_def r f g)
qed

text \<open>
  C4, as stated, fails: \<^verbatim>\<open>log_and_quit\<close> calls \<^verbatim>\<open>sys.exit()\<close> and the discrepancy
  branch calls \<^verbatim>\<open>exit()\<close>, both without an argument, so these failure paths end with
  status 0. With a missing descriptor file the run logs the error and ends with
  status 0.
\<close>

theorem zero_exit_status_counterexample:
  "open_lines (demo_world None [] []) (fmt_path (demo_cli ''ABC'')) = None
   \<and> main (demo_world None [] []) (demo_cli ''ABC'') =
       ([Connect ''cope'' ''secret'' ''orcl'', Execute CharSemanticsQuery,
         Execute AllColumnsQuery, OpenDescriptor ''cope.fmt'',
         LogError (ExnText (OSError ''cope.fmt''))],
        Inl SysExit)
   \<and> exit_status (snd (main (demo_world None [] []) (demo_cli ''ABC''))) = 0"
  by (simp add: demo_main_missing_descriptor) (simp add: demo_world_def demo_cli_def)

section \<open>A missing descriptor\<close>

lemma main_without_ddl:
  assumes "\<forall>ar e3 r3. expand_args w a = ([], Inr ar) \<and> gen_ddl w ar = (e3, r3) \<longrightarrow> isl r3"
  shows "snd (main w a) \<noteq> Inr () \<and> \<not> list_ex is_callproc (fst (main w a))
         \<and> \<not> list_ex is_print_ddl (fst (main w a))"
proof -
  from main_cases [of w a] show ?thesis
  proof (elim disjE exE conjE)
    fix m assume "main w a = ([LogError m], Inl SysExit)"
    then show ?thesis by simp
  next
    assume "main w a = ([], Inl (Uncaught ConfigParserError))"
    then show ?thesis by simp
  next
    fix ar
    assume "main w a = ([Connect (username ar) (password ar) (dbname ar)],
                        Inl (Uncaught DatabaseError))"
    then show ?thesis by simp
  next
    fix ar e3 r3
    assume ea: "expand_args w a = ([], Inr ar)"
       and g: "gen_ddl w ar = (e3, r3)"
       and m: "case r3 of
                  Inl x \<Rightarrow>
                    main w a = (Connect (username ar) (password ar) (dbname ar) # e3, Inl x)
                | Inr ddl \<Rightarrow>
                    main w a =
                      (if show_only ar
                       then (Connect (username ar) (password ar) (dbname ar) # e3
                               @ [PrintDDL ddl], Inr ())
                       else (Connect (username ar) (password ar) (dbname ar) # e3
                               @ [CallProc (table_name ar) ddl],
                             if callproc_ok w then Inr () else Inl (Uncaught DatabaseError)))"
    have "isl r3" using assms ea g by blast
    then obtain x where x: "r3 = Inl x" by (cases r3) auto
    then have "main w a = (Connect (username ar) (password ar) (dbname ar) # e3, Inl x)"
      using m by simp
    then show ?thesis using gen_ddl_cases [OF g] by simp
  qed
qed

lemma gen_ddl_missing_descriptor:
  assumes "open_lines w (fmt_path ar) = None"
  shows "gen_ddl w ar =
     (case char_rows w of
        None \<Rightarrow> ([Execute CharSemanticsQuery], Inl (Uncaught DatabaseError))
      | Some crows \<Rightarrow>
          (case all_rows w of
             None \<Rightarrow> ([Execute CharSemanticsQuery, Execute AllColumnsQuery],
                      Inl (Uncaught DatabaseError))
           | Some arows \<Rightarrow>
               ([Execute CharSemanticsQuery, Execute AllColumnsQuery,
                 OpenDescriptor (fmt_path ar), LogError (ExnText (OSError (fmt_path ar)))],
                Inl SysExit)))"
  using assms by (simp add: gen_ddl_def collect_columns_def split: option.splits)

text \<open>
  C8, as stated, fails: \<^verbatim>\<open>gen_ddl\<close> runs both schema queries before it calls
  \<^verbatim>\<open>collect_columns\<close>, which is where the descriptor is opened. With a missing
  descriptor the connection is made and both queries are issued before the failure is
  logged.
\<close>

theorem queries_precede_descriptor_counterexample:
  "open_lines (demo_world None [] []) (fmt_path (demo_cli ''ABC'')) = None
   \<and> take 3 (fst (main (demo_world None [] []) (demo_cli ''ABC''))) =
       [Connect ''cope'' ''secret'' ''orcl'', Execute CharSemanticsQuery, Execute AllColumnsQuery]
   \<and> drop 3 (fst (main (demo_world None [] []) (demo_cli ''ABC''))) =
       [OpenDescriptor ''cope.fmt'', LogError (ExnText (OSError ''cope.fmt''))]"
  by (simp add: demo_main_missing_descriptor) (simp add: demo_world_def)

text \<open>
  C8, amended. If the descriptor file cannot be opened, the run does not end normally,
  prints no DDL and never calls the stored procedure; but the abort comes after the
  schema access: when the configuration is complete, the connection is accepted and
  both queries answer, the run connects, issues the character-semantics query and the
  full-column-set query, and only then fails to open the descriptor, logs the error
  and quits.
\<close>

theorem missing_descriptor_aborts_after_queries:
  assumes missing: "open_lines w (fmt_path a) = None"
  shows "snd (main w a) \<noteq> Inr ()
       \<and> \<not> list_ex is_callproc (fst (main w a))
       \<and> \<not> list_ex is_print_ddl (fst (main w a))
       \<and> (\<forall>ar crows arows.
             expand_args w a = ([], Inr ar) \<and>
             connect_ok w (username ar) (password ar) (dbname ar) \<and>
             char_rows w = Some crows \<and> all_rows w = Some arows \<longrightarrow>
             main w a =
               ([Connect (username ar) (password ar) (dbname ar),
                 Execute CharSemanticsQuery, Execute AllColumnsQuery,
                 OpenDescriptor (fmt_path a), LogError (ExnText (OSError (fmt_path a)))],
                Inl SysExit))"
proof -
  have path: "\<And>ar. expand_args w a = ([], Inr ar) \<Longrightarrow> fmt_path ar = fmt_path a"
    using expand_args_cases by blast
  have abort: "\<forall>ar e3 r3. expand_args w a = ([], Inr ar) \<and> gen_ddl w ar = (e3, r3) \<longrightarrow> isl r3"
  proof (intro allI impI, elim conjE)
    fix ar e3 r3
    assume ea: "expand_args w a = ([], Inr ar)" and g: "gen_ddl w ar = (e3, r3)"
    have "open_lines w (fmt_path ar) = None" using missing path [OF ea] by simp
    from gen_ddl_missing_descriptor [OF this] g show "isl r3"
      by (auto split: option.splits)
  qed
  have trace: "\<forall>ar crows arows.
             expand_args w a = ([], Inr ar) \<and>
             connect_ok w (username ar) (password ar) (dbname ar) \<and>
             char_rows w = Some crows \<and> all_rows w = Some arows \<longrightarrow>
             main w a =
               ([Connect (username ar) (password ar) (dbname ar),
                 Execute CharSemanticsQuery, Execute AllColumnsQuery,
                 OpenDescriptor (fmt_path a), LogError (ExnText (OSError (fmt_path a)))],
                Inl SysExit)"
  proof (intro allI impI, elim conjE)
    fix ar crows arows
    assume ea: "expand_args w a = ([], Inr ar)"
       and co: "connect_ok w (username ar) (password ar) (dbname ar)"
       and cr: "char_rows w = Some crows" and al: "all_rows w = Some arows"
    have p: "fmt_path ar = fmt_path a" using path [OF ea] .
    have "open_lines w (fmt_path ar) = None" using missing p by simp
    from gen_ddl_missing_descriptor [OF this]
    have "gen_ddl w ar =
            ([Execute CharSemanticsQuery, Execute AllColumnsQuery,
              OpenDescriptor (fmt_path a), LogError (ExnText (OSError (fmt_path a)))],
             Inl SysExit)"
      by (simp add: cr al p)
    then show "main w a =
               ([Connect (username ar) (password ar) (dbname ar),
                 Execute CharSemanticsQuery, Execute AllColumnsQuery,
                 OpenDescriptor (fmt_path a), LogError (ExnText (OSError (fmt_path a)))],
                Inl SysExit)"
      by (simp add: main_def ea get_cursor_def co)
  qed
  show ?thesis using main_without_ddl [OF abort] trace by blast
qed

theorem missing_descriptor_aborts_after_queries_witness:
  "open_lines (demo_world None [] []) (fmt_path (demo_cli ''ABC'')) = None
   \<and> snd (main (demo_world None [] []) (demo_cli ''ABC'')) \<noteq> Inr ()
   \<and> \<not> list_ex is_callproc (fst (main (demo_world None [] []) (demo_cli ''ABC'')))
   \<and> \<not> list_ex is_print_ddl (fst (main (demo_world None [] []) (demo_cli ''ABC'')))"
proof -
  have h: "open_lines (demo_world None [] []) (fmt_path (demo_cli ''ABC'')) = None"
    by (simp add: demo_world_def)
  note t = missing_descriptor_aborts_after_queries [OF h]
  show ?thesis using h t by blast
qed

section \<open>Reconciliation as a gate\<close>

lemma str_int_demo:
  "str_int 1 = ''1''" "str_int 10 = ''10''" "str_int 11 = ''11''"
  "str_int 20 = ''20''" "str_int 30 = ''30''"
  by code_simp+

lemma demo_lines_loop:
  "collect_loop (set []) init_state demo_lines =
     Inr \<lparr>all_columns = {''NAME'', ''ADDR''}, offset = 30,
          with_lengths = [''NAME VARCHAR2(10 BYTE)'', ''ADDR VARCHAR2(20 BYTE)''],
          with_offsets = [[DQ] @ ''NAME'' @ [DQ] @ [TAB] @ ''POSITION(1:10)'',
                          [DQ] @ ''ADDR'' @ [DQ] @ [TAB] @ ''POSITION(11:30)'']\<rparr>"
proof -
  have a: "fst ` set [(''NAME'', 10 :: int), (''ADDR'', 20)] = {''NAME'', ''ADDR''}"
    by simp
  have l: "map (\<lambda>(n, len). render_length (set []) n len) [(''NAME'', 10), (''ADDR'', 20)] =
             [''NAME VARCHAR2(10 BYTE)'', ''ADDR VARCHAR2(20 BYTE)'']"
    by (simp add: render_length_def str_int_demo)
  have o: "map render_range (offset_ranges 0 [(''NAME'', 10), (''ADDR'', 20)]) =
             [[DQ] @ ''NAME'' @ [DQ] @ [TAB] @ ''POSITION(1:10)'',
              [DQ] @ ''ADDR'' @ [DQ] @ [TAB] @ ''POSITION(11:30)'']"
    by (simp add: render_range_def render_position_def str_int_demo)
  have s: "sum_list (map snd [(''NAME'', 10 :: int), (''ADDR'', 20)]) = 30"
    by simp
  show ?thesis
    unfolding collect_loop_init [OF demo_lines_columns] a l o s ..
qed

lemma phone_differs: "{''NAME'', ''ADDR''} \<noteq> set [''NAME'', ''ADDR'', ''PHONE'']"
proof -
  have a: "''PHONE'' \<notin> {''NAME'', ''ADDR''}" by simp
  have b: "''PHONE'' \<in> set [''NAME'', ''ADDR'', ''PHONE'']" by simp
  show ?thesis using a b by metis
qed

lemma phone_xor:
  "set_xor (set [''NAME'', ''ADDR'', ''PHONE'']) {''NAME'', ''ADDR''} = {''PHONE''}"
  by (simp add: set_xor_def insert_Diff_if)

text \<open>
  C2. When the descriptor is parsed to the end and its name set differs from the
  authoritative full set, \<^verbatim>\<open>gen_ddl\<close> returns no DDL: after the two queries and the
  opening of the descriptor it prints the symmetric difference, which is not empty,
  and exits. The script then neither prints DDL nor calls \<^verbatim>\<open>create_table\<close>, whatever
  the configuration and the connection do.
\<close>

theorem discrepancy_aborts:
  assumes cr: "char_rows w = Some crows"
      and al: "all_rows w = Some arows"
      and opened: "open_lines w (fmt_path a) = Some ls"
      and loop: "collect_loop (set crows) init_state ls = Inr st"
      and differ: "all_columns st \<noteq> set arows"
  shows "set_xor (set arows) (all_columns st) \<noteq> {}
       \<and> (\<forall>ar. fmt_path ar = fmt_path a \<longrightarrow>
             gen_ddl w ar =
               ([Execute CharSemanticsQuery, Execute AllColumnsQuery,
                 OpenDescriptor (fmt_path a),
                 PrintDiscrepancies (set_xor (set arows) (all_columns st))],
                Inl SysExit))
       \<and> snd (main w a) \<noteq> Inr ()
       \<and> \<not> list_ex is_callproc (fst (main w a))
       \<and> \<not> list_ex is_print_ddl (fst (main w a))"
proof -
  have ne: "set_xor (set arows) (all_columns st) \<noteq> {}"
    using differ by (auto simp: set_xor_empty_iff)
  have g: "\<forall>ar. fmt_path ar = fmt_path a \<longrightarrow>
             gen_ddl w ar =
               ([Execute CharSemanticsQuery, Execute AllColumnsQuery,
                 OpenDescriptor (fmt_path a),
                 PrintDiscrepancies (set_xor (set arows) (all_columns st))],
                Inl SysExit)"
    using ne by (simp add: gen_ddl_def cr al collect_columns_def opened loop Let_def)
  have "\<forall>ar e3 r3. expand_args w a = ([], Inr ar) \<and> gen_ddl w ar = (e3, r3) \<longrightarrow> isl r3"
  proof (intro allI impI, elim conjE)
    fix ar e3 r3
    assume ea: "expand_args w a = ([], Inr ar)" and gd: "gen_ddl w ar = (e3, r3)"
    have "fmt_path ar = fmt_path a" using expand_args_cases [OF ea] by auto
    then show "isl r3" using g gd by auto
  qed
  from main_without_ddl [OF this] show ?thesis using ne g by blast
qed

theorem discrepancy_aborts_witness:
  "open_lines (demo_world (Some demo_lines) [] [''NAME'', ''ADDR'', ''PHONE''])
       (fmt_path (demo_cli ''ABC'')) = Some demo_lines
   \<and> {''NAME'', ''ADDR''} \<noteq> set [''NAME'', ''ADDR'', ''PHONE'']
   \<and> gen_ddl (demo_world (Some demo_lines) [] [''NAME'', ''ADDR'', ''PHONE'']) (demo_args ''ABC'') =
       ([Execute CharSemanticsQuery, Execute AllColumnsQuery, OpenDescriptor ''cope.fmt'',
         PrintDiscrepancies {''PHONE''}],
        Inl SysExit)
   \<and> \<not> list_ex is_callproc
         (fst (main (demo_world (Some demo_lines) [] [''NAME'', ''ADDR'', ''PHONE''])
                 (demo_cli ''ABC'')))"
proof -
  let ?w = "demo_world (Some demo_lines) [] [''NAME'', ''ADDR'', ''PHONE'']"
  let ?st = "\<lparr>all_columns = {''NAME'', ''ADDR''}, offset = 30,
          with_lengths = [''NAME VARCHAR2(10 BYTE)'', ''ADDR VARCHAR2(20 BYTE)''],
          with_offsets = [[DQ] @ ''NAME'' @ [DQ] @ [TAB] @ ''POSITION(1:10)'',
                          [DQ] @ ''ADDR'' @ [DQ] @ [TAB] @ ''POSITION(11:30)'']\<rparr>"
  have h1: "char_rows ?w = Some []" by (simp add: demo_world_def)
  have h2: "all_rows ?w = Some [''NAME'', ''ADDR'', ''PHONE'']" by (simp add: demo_world_def)
  have h3: "open_lines ?w (fmt_path (demo_cli ''ABC'')) = Some demo_lines"
    by (simp add: demo_world_def demo_cli_def)
  have ac: "all_columns ?st = {''NAME'', ''ADDR''}" by simp
  have h5: "all_columns ?st \<noteq> set [''NAME'', ''ADDR'', ''PHONE'']"
    unfolding ac by (rule phone_differs)
  note t = discrepancy_aborts [OF h1 h2 h3 demo_lines_loop h5]
  have p: "fmt_path (demo_args ''ABC'') = fmt_path (demo_cli ''ABC'')"
    by (simp add: demo_args_def demo_cli_def)
  have f: "fmt_path (demo_cli ''ABC'') = ''cope.fmt''"
    by (simp add: demo_cli_def)
  from t have "gen_ddl ?w (demo_args ''ABC'') =
       ([Execute CharSemanticsQuery, Execute AllColumnsQuery,
         OpenDescriptor (fmt_path (demo_cli ''ABC'')),
         PrintDiscrepancies (set_xor (set [''NAME'', ''ADDR'', ''PHONE'']) (all_columns ?st))],
        Inl SysExit)"
    using p by blast
  then have g: "gen_ddl ?w (demo_args ''ABC'') =
       ([Execute CharSemanticsQuery, Execute AllColumnsQuery, OpenDescriptor ''cope.fmt'',
         PrintDiscrepancies {''PHONE''}],
        Inl SysExit)"
    unfolding ac phone_xor f .
  from t have c: "\<not> list_ex is_callproc (fst (main ?w (demo_cli ''ABC'')))"
    by blast
  show ?thesis using h3 phone_differs g c by blast
qed

section \<open>The table name\<close>

lemma demo_collect_columns:
  "collect_columns (demo_world (Some demo_lines) [] [''NAME'', ''ADDR'']) ''cope.fmt''
       {} {''NAME'', ''ADDR''} =
     ([OpenDescriptor ''cope.fmt''],
      Inr \<lparr>columns_with_lengths =
             ''NAME VARCHAR2(10 BYTE),'' @ [NL] @ ''    ADDR VARCHAR2(20 BYTE)'',
           columns_with_offsets =
             [DQ] @ ''NAME'' @ [DQ] @ [TAB] @ ''POSITION(1:10),'' @ [NL] @ ''       '' @
             [DQ] @ ''ADDR'' @ [DQ] @ [TAB] @ ''POSITION(11:30)''\<rparr>)"
proof -
  have o: "open_lines (demo_world (Some demo_lines) [] [''NAME'', ''ADDR'']) ''cope.fmt''
             = Some demo_lines"
    by (simp add: demo_world_def)
  have x: "set_xor {''NAME'', ''ADDR''} {''NAME'', ''ADDR''} = {}"
    by (rule set_xor_self)
  have l: "collect_loop {} init_state demo_lines =
     Inr \<lparr>all_columns = {''NAME'', ''ADDR''}, offset = 30,
          with_lengths = [''NAME VARCHAR2(10 BYTE)'', ''ADDR VARCHAR2(20 BYTE)''],
          with_offsets = [[DQ] @ ''NAME'' @ [DQ] @ [TAB] @ ''POSITION(1:10)'',
                          [DQ] @ ''ADDR'' @ [DQ] @ [TAB] @ ''POSITION(11:30)'']\<rparr>"
    using demo_lines_loop by simp
  show ?thesis
    by (simp add: collect_columns_def o l x)
qed

lemma lower_demo:
  "lower ''abc'' = ''abc''" "lower ''NEW_MEMBER_abc_EXT'' = ''new_member_abc_ext''"
  by code_simp+

lemma upper_demo: "upper ''abc'' = ''ABC''"
  by code_simp

text \<open>
  C3. \<^verbatim>\<open>expand_args\<close> builds the table name from the acronym as it was typed;
  \<^verbatim>\<open>gen_ddl\<close> computes \<^verbatim>\<open>acronym_upper\<close> and never uses it. For the acronym \<^verbatim>\<open>abc\<close>
  the table name, in the DDL and in the call of the stored procedure, is
  \<^verbatim>\<open>NEW_MEMBER_abc_EXT\<close>, not \<^verbatim>\<open>NEW_MEMBER_ABC_EXT\<close>.
\<close>

theorem table_name_keeps_case:
  "expand_args (demo_world (Some demo_lines) [] [''NAME'', ''ADDR'']) (demo_cli ''abc'') =
     ([], Inr (demo_args ''abc''))
   \<and> table_name (demo_args ''abc'') = ''NEW_MEMBER_abc_EXT''
   \<and> ''NEW_MEMBER_'' @ upper ''abc'' @ ''_EXT'' = ''NEW_MEMBER_ABC_EXT''
   \<and> main (demo_world (Some demo_lines) [] [''NAME'', ''ADDR'']) (demo_cli ''abc'') =
       ([Connect ''cope'' ''secret'' ''orcl'', Execute CharSemanticsQuery,
         Execute AllColumnsQuery, OpenDescriptor ''cope.fmt'',
         CallProc ''NEW_MEMBER_abc_EXT''
           (template
              \<lparr>columns_with_lengths =
                 ''NAME VARCHAR2(10 BYTE),'' @ [NL] @ ''    ADDR VARCHAR2(20 BYTE)'',
               columns_with_offsets =
                 [DQ] @ ''NAME'' @ [DQ] @ [TAB] @ ''POSITION(1:10),'' @ [NL] @ ''       '' @
                 [DQ] @ ''ADDR'' @ [DQ] @ [TAB] @ ''POSITION(11:30)'',
               v_table_name = ''NEW_MEMBER_abc_EXT'',
               v_lc_table_name = ''new_member_abc_ext'',
               v_directory_name = ''EXT_DIR'',
               v_file_name = ''abc_good.txt''\<rparr>)],
        Inr ())"
proof -
  let ?w = "demo_world (Some demo_lines) [] [''NAME'', ''ADDR'']"
  have r: "char_rows ?w = Some []" "all_rows ?w = Some [''NAME'', ''ADDR'']"
          "connect_ok ?w ''cope'' ''secret'' ''orcl''" "callproc_ok ?w"
    by (simp_all add: demo_world_def)
  have f: "fmt_path (demo_args ''abc'') = ''cope.fmt''"
          "username (demo_args ''abc'') = ''cope''"
          "password (demo_args ''abc'') = ''secret''"
          "dbname (demo_args ''abc'') = ''orcl''"
          "directory_name (demo_args ''abc'') = ''EXT_DIR''"
          "affiliate_acronym (demo_args ''abc'') = ''abc''"
          "table_name (demo_args ''abc'') = ''NEW_MEMBER_abc_EXT''"
          "\<not> show_only (demo_args ''abc'')"
    by (simp_all add: demo_args_def)
  have g: "gen_ddl ?w (demo_args ''abc'') =
       ([Execute CharSemanticsQuery, Execute AllColumnsQuery, OpenDescriptor ''cope.fmt''],
        Inr (template
              \<lparr>columns_with_lengths =
                 ''NAME VARCHAR2(10 BYTE),'' @ [NL] @ ''    ADDR VARCHAR2(20 BYTE)'',
               columns_with_offsets =
                 [DQ] @ ''NAME'' @ [DQ] @ [TAB] @ ''POSITION(1:10),'' @ [NL] @ ''       '' @
                 [DQ] @ ''ADDR'' @ [DQ] @ [TAB] @ ''POSITION(11:30)'',
               v_table_name = ''NEW_MEMBER_abc_EXT'',
               v_lc_table_name = ''new_member_abc_ext'',
               v_directory_name = ''EXT_DIR'',
               v_file_name = ''abc_good.txt''\<rparr>))"
    by (simp add: gen_ddl_def r f demo_collect_columns lower_demo)
  have m: "main ?w (demo_cli ''abc'') =
       ([Connect ''cope'' ''secret'' ''orcl'', Execute CharSemanticsQuery,
         Execute AllColumnsQuery, OpenDescriptor ''cope.fmt'',
         CallProc ''NEW_MEMBER_abc_EXT''
           (template
              \<lparr>columns_with_lengths =
                 ''NAME VARCHAR2(10 BYTE),'' @ [NL] @ ''    ADDR VARCHAR2(20 BYTE)'',
               columns_with_offsets =
                 [DQ] @ ''NAME'' @ [DQ] @ [TAB] @ ''POSITION(1:10),'' @ [NL] @ ''       '' @
                 [DQ] @ ''ADDR'' @ [DQ] @ [TAB] @ ''POSITION(11:30)'',
               v_table_name = ''NEW_MEMBER_abc_EXT'',
               v_lc_table_name = ''new_member_abc_ext'',
               v_directory_name = ''EXT_DIR'',
               v_file_name = ''abc_good.txt''\<rparr>)],
        Inr ())"
    by (simp add: main_def demo_expand_args get_cursor_def create_table_def r f g)
  have u: "''NEW_MEMBER_'' @ upper ''abc'' @ ''_EXT'' = ''NEW_MEMBER_ABC_EXT''"
    by (simp add: upper_demo)
  show ?thesis using demo_expand_args f(7) u m by blast
qed

section \<open>Failures and the way a run ends\<close>

lemma expand_args_unusable:
  assumes "isfile w (dbconfig_path a)"
      and "cfg_read w (dbconfig_path a) = Cfg (Some db)"
      and "first_unusable db = Some item"
  shows "expand_args w a =
           (case db item of
              None \<Rightarrow> ([LogError (Text (''Missing parameter '' @ item @ '' ''))], Inl SysExit)
            | Some v \<Rightarrow> ([], Inl (Uncaught ConfigParserError)))"
  using assms
  by (auto simp: first_unusable_def required_options_def expand_args_def log_and_quit_def
           split: if_splits option.splits cfg_value.splits)

lemma expand_args_configured:
  assumes "config_values w a = Some (u, pw, d, dir)"
  shows "expand_args w a =
           ([], Inr \<lparr>dbconfig_path = dbconfig_path a, fmt_path = fmt_path a,
                     affiliate_acronym = affiliate_acronym a, show_only = show_only a,
                     table_name = ''NEW_MEMBER_'' @ affiliate_acronym a @ ''_EXT'',
                     username = u, password = pw, dbname = d, directory_name = dir\<rparr>)"
  using assms
  by (auto simp: config_values_def expand_args_def
           split: if_splits config.splits option.splits cfg_value.splits)

lemma expand_args_returns:
  assumes "expand_args w a = ([], Inr ar)"
  shows "config_values w a = Some (username ar, password ar, dbname ar, directory_name ar)"
  using assms
  by (auto simp: config_values_def expand_args_def log_and_quit_def
           split: if_splits config.splits option.splits cfg_value.splits)

lemma main_no_config_file:
  "\<not> isfile w (dbconfig_path a) \<Longrightarrow>
     main w a = ([LogError (Text (''No such file: '' @ dbconfig_path a))], Inl SysExit)"
  by (simp add: main_def expand_args_def log_and_quit_def)

lemma main_config_raises:
  "isfile w (dbconfig_path a) \<Longrightarrow> cfg_read w (dbconfig_path a) = CfgRaises \<Longrightarrow>
     main w a = ([], Inl (Uncaught ConfigParserError))"
  by (simp add: main_def expand_args_def)

lemma main_no_section:
  "isfile w (dbconfig_path a) \<Longrightarrow> cfg_read w (dbconfig_path a) = Cfg None \<Longrightarrow>
     main w a = ([LogError (Text ''No database found'')], Inl SysExit)"
  by (simp add: main_def expand_args_def log_and_quit_def)

lemma main_missing_option:
  "isfile w (dbconfig_path a) \<Longrightarrow> cfg_read w (dbconfig_path a) = Cfg (Some db) \<Longrightarrow>
   first_unusable db = Some item \<Longrightarrow> db item = None \<Longrightarrow>
     main w a = ([LogError (Text (''Missing parameter '' @ item @ '' ''))], Inl SysExit)"
  by (simp add: main_def expand_args_unusable)

lemma main_get_raises:
  "isfile w (dbconfig_path a) \<Longrightarrow> cfg_read w (dbconfig_path a) = Cfg (Some db) \<Longrightarrow>
   first_unusable db = Some item \<Longrightarrow> db item = Some GetRaises \<Longrightarrow>
     main w a = ([], Inl (Uncaught ConfigParserError))"
  by (simp add: main_def expand_args_unusable)

lemma main_connection_refused:
  "config_values w a = Some (u, pw, d, dir) \<Longrightarrow> \<not> connect_ok w u pw d \<Longrightarrow>
     main w a = ([Connect u pw d], Inl (Uncaught DatabaseError))"
  by (simp add: main_def expand_args_configured get_cursor_def)

lemma main_char_query_fails:
  "config_values w a = Some (u, pw, d, dir) \<Longrightarrow> connect_ok w u pw d \<Longrightarrow>
   char_rows w = None \<Longrightarrow>
     main w a = ([Connect u pw d, Execute CharSemanticsQuery], Inl (Uncaught DatabaseError))"
  by (simp add: main_def expand_args_configured get_cursor_def gen_ddl_def)

lemma main_all_query_fails:
  "config_values w a = Some (u, pw, d, dir) \<Longrightarrow> connect_ok w u pw d \<Longrightarrow>
   char_rows w = Some crows \<Longrightarrow> all_rows w = None \<Longrightarrow>
     main w a = ([Connect u pw d, Execute CharSemanticsQuery, Execute AllColumnsQuery],
                 Inl (Uncaught DatabaseError))"
  by (simp add: main_def expand_args_configured get_cursor_def gen_ddl_def)

lemma main_descriptor_unopened:
  "config_values w a = Some (u, pw, d, dir) \<Longrightarrow> connect_ok w u pw d \<Longrightarrow>
   char_rows w = Some crows \<Longrightarrow> all_rows w = Some arows \<Longrightarrow>
   open_lines w (fmt_path a) = None \<Longrightarrow>
     main w a = ([Connect u pw d, Execute CharSemanticsQuery, Execute AllColumnsQuery,
                  OpenDescriptor (fmt_path a), LogError (ExnText (OSError (fmt_path a)))],
                 Inl SysExit)"
  by (simp add: main_def expand_args_configured get_cursor_def gen_ddl_def collect_columns_def)

lemma main_parse_error:
  assumes "config_values w a = Some (u, pw, d, dir)" and "connect_ok w u pw d"
      and "char_rows w = Some crows" and "all_rows w = Some arows"
      and "open_lines w (fmt_path a) = Some (pre @ l # post)"
      and "list_all is_column_line pre" and "parse_line l = Inl e"
  shows "main w a = ([Connect u pw d, Execute CharSemanticsQuery, Execute AllColumnsQuery,
                      OpenDescriptor (fmt_path a), LogError (ExnText e)],
                     Inl SysExit)"
proof -
  have "collect_loop (set crows) init_state (pre @ l # post) = Inl e"
    by (simp add: collect_loop_columns columns_of_raise [OF assms(6) assms(7)])
  then show ?thesis
    using assms(1-5)
    by (simp add: main_def expand_args_configured get_cursor_def gen_ddl_def collect_columns_def)
qed

lemma main_discrepancy:
  assumes "config_values w a = Some (u, pw, d, dir)" and "connect_ok w u pw d"
      and "char_rows w = Some crows" and "all_rows w = Some arows"
      and "open_lines w (fmt_path a) = Some ls"
      and "collect_loop (set crows) init_state ls = Inr st"
      and "all_columns st \<noteq> set arows"
  shows "main w a = ([Connect u pw d, Execute CharSemanticsQuery, Execute AllColumnsQuery,
                      OpenDescriptor (fmt_path a),
                      PrintDiscrepancies (set_xor (set arows) (all_columns st))],
                     Inl SysExit)"
proof -
  have "set_xor (set arows) (all_columns st) \<noteq> {}"
    using assms(7) by (auto simp: set_xor_empty_iff)
  then show ?thesis
    using assms(1-6)
    by (simp add: main_def expand_args_configured get_cursor_def gen_ddl_def collect_columns_def
                  Let_def)
qed

lemma main_reconciled:
  assumes "config_values w a = Some (u, pw, d, dir)" and "connect_ok w u pw d"
      and "char_rows w = Some crows" and "all_rows w = Some arows"
      and "open_lines w (fmt_path a) = Some ls"
      and "collect_loop (set crows) init_state ls = Inr st"
      and "all_columns st = set arows"
  shows "\<exists>ddl. main w a =
           (if show_only a
            then ([Connect u pw d, Execute CharSemanticsQuery, Execute AllColumnsQuery,
                   OpenDescriptor (fmt_path a), PrintDDL ddl], Inr ())
            else ([Connect u pw d, Execute CharSemanticsQuery, Execute AllColumnsQuery,
                   OpenDescriptor (fmt_path a),
                   CallProc (''NEW_MEMBER_'' @ affiliate_acronym a @ ''_EXT'') ddl],
                  if callproc_ok w then Inr () else Inl (Uncaught DatabaseError)))"
proof -
  have "set_xor (set arows) (all_columns st) = {}"
    using assms(7) by (simp add: set_xor_self)
  then show ?thesis
    using assms(1-6)
    by (simp add: main_def expand_args_configured get_cursor_def gen_ddl_def collect_columns_def
                  create_table_def Let_def)
qed

lemma main_normal_end:
  assumes ok: "snd (main w a) = Inr ()"
  shows "\<exists>u pw d dir crows arows ls st.
           config_values w a = Some (u, pw, d, dir) \<and> connect_ok w u pw d \<and>
           char_rows w = Some crows \<and> all_rows w = Some arows \<and>
           open_lines w (fmt_path a) = Some ls \<and>
           collect_loop (set crows) init_state ls = Inr st \<and> all_columns st = set arows \<and>
           (show_only a \<or> callproc_ok w)"
proof -
  from main_outcome [of w a] ok obtain ar where ea: "expand_args w a = ([], Inr ar)"
    by auto
  let ?u = "username ar" and ?pw = "password ar" and ?d = "dbname ar"
  let ?dir = "directory_name ar"
  have cv: "config_values w a = Some (?u, ?pw, ?d, ?dir)"
    using expand_args_returns [OF ea] .
  have co: "connect_ok w ?u ?pw ?d"
    using main_connection_refused [OF cv] ok by (cases "connect_ok w ?u ?pw ?d") auto
  obtain crows where cr: "char_rows w = Some crows"
    using main_char_query_fails [OF cv co] ok by (cases "char_rows w") auto
  obtain arows where al: "all_rows w = Some arows"
    using main_all_query_fails [OF cv co cr] ok by (cases "all_rows w") auto
  obtain ls where op: "open_lines w (fmt_path a) = Some ls"
    using main_descriptor_unopened [OF cv co cr al] ok by (cases "open_lines w (fmt_path a)") auto
  obtain st where lp: "collect_loop (set crows) init_state ls = Inr st"
  proof (cases "collect_loop (set crows) init_state ls")
    case (Inl e)
    then have "main w a = ([Connect ?u ?pw ?d, Execute CharSemanticsQuery,
                 Execute AllColumnsQuery, OpenDescriptor (fmt_path a), LogError (ExnText e)],
                Inl SysExit)"
      using cv co cr al op
      by (simp add: main_def expand_args_configured get_cursor_def gen_ddl_def
                    collect_columns_def)
    then show ?thesis using ok by simp
  next
    case (Inr st)
    then show ?thesis using that by blast
  qed
  have eq: "all_columns st = set arows"
    using main_discrepancy [OF cv co cr al op lp] ok by (cases "all_columns st = set arows") auto
  have fin: "show_only a \<or> callproc_ok w"
    using main_reconciled [OF cv co cr al op lp eq] ok
    by (cases "show_only a"; cases "callproc_ok w") auto
  show ?thesis using cv co cr al op lp eq fin by blast
qed

lemma demo_config_values:
  "config_values (demo_world fmt crows arows) (demo_cli acronym) =
     Some (''cope'', ''secret'', ''orcl'', ''EXT_DIR'')"
  by (simp add: config_values_def demo_world_def demo_cli_def demo_cfg_def)

text \<open>
  C4, amended. Every failure ends the run, and none is swallowed. Condition by
  condition on the world, in the order the script meets them: no configuration file,
  no \<^verbatim>\<open>database\<close> section, a missing option, a descriptor that cannot be opened, a
  line that does not parse, and a name set that differs from the schema's each end the
  run by \<^verbatim>\<open>SystemExit\<close>, the logged error or the printed discrepancies being the last
  effect; the status of such a run is 0. A configuration file or an option that the
  parser cannot read, a refused connection, a failing query and a failing stored
  procedure each end the run by the uncaught exception, with status 1. Conversely a
  run ends normally only when none of these conditions holds, and then the DDL was
  generated and printed or handed to the stored procedure; a run that does not end
  normally prints no DDL.
\<close>

theorem failure_paths_terminate:
  "(\<not> isfile w (dbconfig_path a) \<longrightarrow>
      main w a = ([LogError (Text (''No such file: '' @ dbconfig_path a))], Inl SysExit))
 \<and> (isfile w (dbconfig_path a) \<and> cfg_read w (dbconfig_path a) = CfgRaises \<longrightarrow>
      main w a = ([], Inl (Uncaught ConfigParserError)))
 \<and> (isfile w (dbconfig_path a) \<and> cfg_read w (dbconfig_path a) = Cfg None \<longrightarrow>
      main w a = ([LogError (Text ''No database found'')], Inl SysExit))
 \<and> (isfile w (dbconfig_path a) \<and> cfg_read w (dbconfig_path a) = Cfg (Some db) \<and>
    first_unusable db = Some item \<and> db item = None \<longrightarrow>
      main w a = ([LogError (Text (''Missing parameter '' @ item @ '' ''))], Inl SysExit))
 \<and> (isfile w (dbconfig_path a) \<and> cfg_read w (dbconfig_path a) = Cfg (Some db) \<and>
    first_unusable db = Some item \<and> db item = Some GetRaises \<longrightarrow>
      main w a = ([], Inl (Uncaught ConfigParserError)))
 \<and> (config_values w a = Some (u, pw, d, dir) \<and> \<not> connect_ok w u pw d \<longrightarrow>
      main w a = ([Connect u pw d], Inl (Uncaught DatabaseError)))
 \<and> (config_values w a = Some (u, pw, d, dir) \<and> connect_ok w u pw d \<and>
    char_rows w = None \<longrightarrow>
      main w a = ([Connect u pw d, Execute CharSemanticsQuery], Inl (Uncaught DatabaseError)))
 \<and> (config_values w a = Some (u, pw, d, dir) \<and> connect_ok w u pw d \<and>
    char_rows w = Some crows \<and> all_rows w = None \<longrightarrow>
      main w a = ([Connect u pw d, Execute CharSemanticsQuery, Execute AllColumnsQuery],
                  Inl (Uncaught DatabaseError)))
 \<and> (config_values w a = Some (u, pw, d, dir) \<and> connect_ok w u pw d \<and>
    char_rows w = Some crows \<and> all_rows w = Some arows \<and>
    open_lines w (fmt_path a) = None \<longrightarrow>
      main w a = ([Connect u pw d, Execute CharSemanticsQuery, Execute AllColumnsQuery,
                   OpenDescriptor (fmt_path a), LogError (ExnText (OSError (fmt_path a)))],
                  Inl SysExit))
 \<and> (config_values w a = Some (u, pw, d, dir) \<and> connect_ok w u pw d \<and>
    char_rows w = Some crows \<and> all_rows w = Some arows \<and>
    open_lines w (fmt_path a) = Some (pre @ l # post) \<and>
    list_all is_column_line pre \<and> parse_line l = Inl e \<longrightarrow>
      main w a = ([Connect u pw d, Execute CharSemanticsQuery, Execute AllColumnsQuery,
                   OpenDescriptor (fmt_path a), LogError (ExnText e)],
                  Inl SysExit))
 \<and> (config_values w a = Some (u, pw, d, dir) \<and> connect_ok w u pw d \<and>
    char_rows w = Some crows \<and> all_rows w = Some arows \<and>
    open_lines w (fmt_path a) = Some ls \<and>
    collect_loop (set crows) init_state ls = Inr st \<and> all_columns st \<noteq> set arows \<longrightarrow>
      main w a = ([Connect u pw d, Execute CharSemanticsQuery, Execute AllColumnsQuery,
                   OpenDescriptor (fmt_path a),
                   PrintDiscrepancies (set_xor (set arows) (all_columns st))],
                  Inl SysExit))
 \<and> (config_values w a = Some (u, pw, d, dir) \<and> connect_ok w u pw d \<and>
    char_rows w = Some crows \<and> all_rows w = Some arows \<and>
    open_lines w (fmt_path a) = Some ls \<and>
    collect_loop (set crows) init_state ls = Inr st \<and> all_columns st = set arows \<and>
    \<not> show_only a \<and> \<not> callproc_ok w \<longrightarrow>
      (\<exists>ddl. main w a =
         ([Connect u pw d, Execute CharSemanticsQuery, Execute AllColumnsQuery,
           OpenDescriptor (fmt_path a),
           CallProc (''NEW_MEMBER_'' @ affiliate_acronym a @ ''_EXT'') ddl],
          Inl (Uncaught DatabaseError))))
 \<and> (snd (main w a) = Inr () \<longrightarrow>
      (\<exists>u pw d dir crows arows ls st.
         config_values w a = Some (u, pw, d, dir) \<and> connect_ok w u pw d \<and>
         char_rows w = Some crows \<and> all_rows w = Some arows \<and>
         open_lines w (fmt_path a) = Some ls \<and>
         collect_loop (set crows) init_state ls = Inr st \<and> all_columns st = set arows \<and>
         (show_only a \<or> callproc_ok w)))
 \<and> (snd (main w a) = Inr () \<longrightarrow>
      (\<exists>ar ddl e3. expand_args w a = ([], Inr ar) \<and> gen_ddl w ar = (e3, Inr ddl) \<and>
         fst (main w a) \<noteq> [] \<and>
         last (fst (main w a)) =
           (if show_only a then PrintDDL ddl else CallProc (table_name ar) ddl)))
 \<and> (snd (main w a) \<noteq> Inr () \<longrightarrow>
        \<not> list_ex is_print_ddl (fst (main w a)) \<and>
        ((snd (main w a) = Inl SysExit \<and> exit_status (snd (main w a)) = 0 \<and>
          fst (main w a) \<noteq> [] \<and> is_report (last (fst (main w a))) \<and>
          \<not> list_ex is_callproc (fst (main w a)))
         \<or> ((snd (main w a) = Inl (Uncaught DatabaseError) \<or>
              snd (main w a) = Inl (Uncaught ConfigParserError)) \<and>
             exit_status (snd (main w a)) = 1)))"
proof -
  have c1: "(\<not> isfile w (dbconfig_path a) \<longrightarrow>
      main w a = ([LogError (Text (''No such file: '' @ dbconfig_path a))], Inl SysExit))"
    by (simp add: main_no_config_file)
  have c2: "(isfile w (dbconfig_path a) \<and> cfg_read w (dbconfig_path a) = CfgRaises \<longrightarrow>
      main w a = ([], Inl (Uncaught ConfigParserError)))"
    by (simp add: main_config_raises)
  have c3: "(isfile w (dbconfig_path a) \<and> cfg_read w (dbconfig_path a) = Cfg None \<longrightarrow>
      main w a = ([LogError (Text ''No database found'')], Inl SysExit))"
    by (simp add: main_no_section)
  have c4: "(isfile w (dbconfig_path a) \<and> cfg_read w (dbconfig_path a) = Cfg (Some db) \<and>
    first_unusable db = Some item \<and> db item = None \<longrightarrow>
      main w a = ([LogError (Text (''Missing parameter '' @ item @ '' ''))], Inl SysExit))"
    using main_missing_option by blast
  have c5: "(isfile w (dbconfig_path a) \<and> cfg_read w (dbconfig_path a) = Cfg (Some db) \<and>
    first_unusable db = Some item \<and> db item = Some GetRaises \<longrightarrow>
      main w a = ([], Inl (Uncaught ConfigParserError)))"
    using main_get_raises by blast
  have c6: "(config_values w a = Some (u, pw, d, dir) \<and> \<not> connect_ok w u pw d \<longrightarrow>
      main w a = ([Connect u pw d], Inl (Uncaught DatabaseError)))"
    using main_connection_refused by blast
  have c7: "(config_values w a = Some (u, pw, d, dir) \<and> connect_ok w u pw d \<and>
    char_rows w = None \<longrightarrow>
      main w a = ([Connect u pw d, Execute CharSemanticsQuery], Inl (Uncaught DatabaseError)))"
    using main_char_query_fails by blast
  have c8: "(config_values w a = Some (u, pw, d, dir) \<and> connect_ok w u pw d \<and>
    char_rows w = Some crows \<and> all_rows w = None \<longrightarrow>
      main w a = ([Connect u pw d, Execute CharSemanticsQuery, Execute AllColumnsQuery],
                  Inl (Uncaught DatabaseError)))"
    using main_all_query_fails by blast
  have c9: "(config_values w a = Some (u, pw, d, dir) \<and> connect_ok w u pw d \<and>
    char_rows w = Some crows \<and> all_rows w = Some arows \<and>
    open_lines w (fmt_path a) = None \<longrightarrow>
      main w a = ([Connect u pw d, Execute CharSemanticsQuery, Execute AllColumnsQuery,
                   OpenDescriptor (fmt_path a), LogError (ExnText (OSError (fmt_path a)))],
                  Inl SysExit))"
    using main_descriptor_unopened by blast
  have c10: "(config_values w a = Some (u, pw, d, dir) \<and> connect_ok w u pw d \<and>
    char_rows w = Some crows \<and> all_rows w = Some arows \<and>
    open_lines w (fmt_path a) = Some (pre @ l # post) \<and>
    list_all is_column_line pre \<and> parse_line l = Inl e \<longrightarrow>
      main w a = ([Connect u pw d, Execute CharSemanticsQuery, Execute AllColumnsQuery,
                   OpenDescriptor (fmt_path a), LogError (ExnText e)],
                  Inl SysExit))"
    using main_parse_error by blast
  have c11: "(config_values w a = Some (u, pw, d, dir) \<and> connect_ok w u pw d \<and>
    char_rows w = Some crows \<and> all_rows w = Some arows \<and>
    open_lines w (fmt_path a) = Some ls \<and>
    collect_loop (set crows) init_state ls = Inr st \<and> all_columns st \<noteq> set arows \<longrightarrow>
      main w a = ([Connect u pw d, Execute CharSemanticsQuery, Execute AllColumnsQuery,
                   OpenDescriptor (fmt_path a),
                   PrintDiscrepancies (set_xor (set arows) (all_columns st))],
                  Inl SysExit))"
    using main_discrepancy by blast
  have c12: "(config_values w a = Some (u, pw, d, dir) \<and> connect_ok w u pw d \<and>
    char_rows w = Some crows \<and> all_rows w = Some arows \<and>
    open_lines w (fmt_path a) = Some ls \<and>
    collect_loop (set crows) init_state ls = Inr st \<and> all_columns st = set arows \<and>
    \<not> show_only a \<and> \<not> callproc_ok w \<longrightarrow>
      (\<exists>ddl. main w a =
         ([Connect u pw d, Execute CharSemanticsQuery, Execute AllColumnsQuery,
           OpenDescriptor (fmt_path a),
           CallProc (''NEW_MEMBER_'' @ affiliate_acronym a @ ''_EXT'') ddl],
          Inl (Uncaught DatabaseError))))"
  proof (intro impI, elim conjE)
    assume h: "config_values w a = Some (u, pw, d, dir)" "connect_ok w u pw d"
      "char_rows w = Some crows" "all_rows w = Some arows"
      "open_lines w (fmt_path a) = Some ls"
      "collect_loop (set crows) init_state ls = Inr st" "all_columns st = set arows"
      and n: "\<not> show_only a" "\<not> callproc_ok w"
    from main_reconciled [OF h] n
    show "\<exists>ddl. main w a =
         ([Connect u pw d, Execute CharSemanticsQuery, Execute AllColumnsQuery,
           OpenDescriptor (fmt_path a),
           CallProc (''NEW_MEMBER_'' @ affiliate_acronym a @ ''_EXT'') ddl],
          Inl (Uncaught DatabaseError))"
      by simp
  qed
  have c13: "(snd (main w a) = Inr () \<longrightarrow>
      (\<exists>u pw d dir crows arows ls st.
         config_values w a = Some (u, pw, d, dir) \<and> connect_ok w u pw d \<and>
         char_rows w = Some crows \<and> all_rows w = Some arows \<and>
         open_lines w (fmt_path a) = Some ls \<and>
         collect_loop (set crows) init_state ls = Inr st \<and> all_columns st = set arows \<and>
         (show_only a \<or> callproc_ok w)))"
    using main_normal_end by blast
  have c14: "(snd (main w a) = Inr () \<longrightarrow>
      (\<exists>ar ddl e3. expand_args w a = ([], Inr ar) \<and> gen_ddl w ar = (e3, Inr ddl) \<and>
         fst (main w a) \<noteq> [] \<and>
         last (fst (main w a)) =
           (if show_only a then PrintDDL ddl else CallProc (table_name ar) ddl)))"
    using main_outcome [of w a] by auto
  have c15: "(snd (main w a) \<noteq> Inr () \<longrightarrow>
        \<not> list_ex is_print_ddl (fst (main w a)) \<and>
        ((snd (main w a) = Inl SysExit \<and> exit_status (snd (main w a)) = 0 \<and>
          fst (main w a) \<noteq> [] \<and> is_report (last (fst (main w a))) \<and>
          \<not> list_ex is_callproc (fst (main w a)))
         \<or> ((snd (main w a) = Inl (Uncaught DatabaseError) \<or>
              snd (main w a) = Inl (Uncaught ConfigParserError)) \<and>
             exit_status (snd (main w a)) = 1)))"
    using main_outcome [of w a] by auto
  show ?thesis
    by (intro conjI) (rule c1, rule c2, rule c3, rule c4, rule c5, rule c6, rule c7, rule c8,
        rule c9, rule c10, rule c11, rule c12, rule c13, rule c14, rule c15)
qed

theorem failure_paths_terminate_witness:
  "main (demo_world None [] []) ((demo_cli ''ABC'')\<lparr>dbconfig_path := ''nowhere.ini''\<rparr>) =
     ([LogError (Text ''No such file: nowhere.ini'')], Inl SysExit)
   \<and> main ((demo_world None [] [])\<lparr>cfg_read := \<lambda>p. Cfg (Some [''username'' \<mapsto> Value ''cope''])\<rparr>)
        (demo_cli ''ABC'') =
     ([LogError (Text ''Missing parameter password '')], Inl SysExit)
   \<and> main (demo_world None [] []) (demo_cli ''ABC'') =
     ([Connect ''cope'' ''secret'' ''orcl'', Execute CharSemanticsQuery, Execute AllColumnsQuery,
       OpenDescriptor ''cope.fmt'', LogError (ExnText (OSError ''cope.fmt''))],
      Inl SysExit)
   \<and> main (demo_world (Some ([''NAME,10'' @ [NL]] @ (''garbage'' @ [NL]) # [])) [] [''NAME''])
        (demo_cli ''ABC'') =
     ([Connect ''cope'' ''secret'' ''orcl'', Execute CharSemanticsQuery, Execute AllColumnsQuery,
       OpenDescriptor ''cope.fmt'', LogError (ExnText IndexError)],
      Inl SysExit)
   \<and> main (demo_world (Some demo_lines) [] [''NAME'', ''ADDR'', ''PHONE'']) (demo_cli ''ABC'') =
     ([Connect ''cope'' ''secret'' ''orcl'', Execute CharSemanticsQuery, Execute AllColumnsQuery,
       OpenDescriptor ''cope.fmt'', PrintDiscrepancies {''PHONE''}],
      Inl SysExit)
   \<and> exit_status (snd (main (demo_world None [] []) (demo_cli ''ABC''))) = 0"
proof -
  let ?w0 = "demo_world None [] []"
  let ?a = "demo_cli ''ABC''"
  have f: "fmt_path ?a = ''cope.fmt''" by (simp add: demo_cli_def)
  have cv: "\<And>fmt crows arows.
              config_values (demo_world fmt crows arows) ?a =
                Some (''cope'', ''secret'', ''orcl'', ''EXT_DIR'')"
    by (rule demo_config_values)
  have co: "\<And>fmt crows arows. connect_ok (demo_world fmt crows arows) ''cope'' ''secret'' ''orcl''"
    by (simp add: demo_world_def)
  have cr: "\<And>fmt crows arows. char_rows (demo_world fmt crows arows) = Some crows"
    by (simp add: demo_world_def)
  have al: "\<And>fmt crows arows. all_rows (demo_world fmt crows arows) = Some arows"
    by (simp add: demo_world_def)
  have op: "\<And>fmt crows arows. open_lines (demo_world fmt crows arows) (fmt_path ?a) = fmt"
    by (simp add: demo_world_def demo_cli_def)
  \<comment> \<open>no configuration file\<close>
  let ?a1 = "?a\<lparr>dbconfig_path := ''nowhere.ini''\<rparr>"
  have h1: "\<not> isfile ?w0 (dbconfig_path ?a1)"
    by (simp add: demo_world_def)
  have p1: "''No such file: '' @ dbconfig_path ?a1 = ''No such file: nowhere.ini''" by simp
  note t1 = failure_paths_terminate [where w = ?w0 and a = ?a1, THEN conjunct1, THEN mp, OF h1]
  have r1: "main ?w0 ?a1 = ([LogError (Text ''No such file: nowhere.ini'')], Inl SysExit)"
    using t1 unfolding p1 .
  \<comment> \<open>a missing option\<close>
  let ?db = "[''username'' \<mapsto> Value ''cope'']"
  let ?w2 = "?w0\<lparr>cfg_read := \<lambda>p. Cfg (Some ?db)\<rparr>"
  have h2: "isfile ?w2 (dbconfig_path ?a) \<and> cfg_read ?w2 (dbconfig_path ?a) = Cfg (Some ?db) \<and>
            first_unusable ?db = Some ''password'' \<and> ?db ''password'' = None"
    by (simp add: demo_world_def demo_cli_def first_unusable_def required_options_def)
  have p2: "''Missing parameter '' @ ''password'' @ '' '' = ''Missing parameter password ''"
    by simp
  note t2 = failure_paths_terminate [where w = ?w2 and a = ?a and db = ?db
              and item = "''password''", THEN conjunct2, THEN conjunct2, THEN conjunct2, THEN conjunct1, THEN mp, OF h2]
  have r2: "main ?w2 ?a = ([LogError (Text ''Missing parameter password '')], Inl SysExit)"
    using t2 unfolding p2 .
  \<comment> \<open>no descriptor\<close>
  have h3: "config_values ?w0 ?a = Some (''cope'', ''secret'', ''orcl'', ''EXT_DIR'') \<and>
            connect_ok ?w0 ''cope'' ''secret'' ''orcl'' \<and>
            char_rows ?w0 = Some [] \<and> all_rows ?w0 = Some [] \<and>
            open_lines ?w0 (fmt_path ?a) = None"
    using cv co cr al op by (intro conjI)
  note t3 = failure_paths_terminate [where w = ?w0 and a = ?a and u = "''cope''"
             and pw = "''secret''" and d = "''orcl''" and dir = "''EXT_DIR''"
             and crows = "[]" and arows = "[]", THEN conjunct2, THEN conjunct2, THEN conjunct2, THEN conjunct2, THEN conjunct2, THEN conjunct2, THEN conjunct2, THEN conjunct2, THEN conjunct1, THEN mp, OF h3]
  have r3: "main ?w0 ?a =
     ([Connect ''cope'' ''secret'' ''orcl'', Execute CharSemanticsQuery, Execute AllColumnsQuery,
       OpenDescriptor ''cope.fmt'', LogError (ExnText (OSError ''cope.fmt''))],
      Inl SysExit)"
    using t3 unfolding f .
  have s3: "exit_status (snd (main ?w0 ?a)) = 0"
    unfolding r3 by simp
  \<comment> \<open>a line that does not parse\<close>
  let ?ls4 = "[''NAME,10'' @ [NL]] @ (''garbage'' @ [NL]) # []"
  let ?w4 = "demo_world (Some ?ls4) [] [''NAME'']"
  have g4: "list_all is_column_line [''NAME,10'' @ [NL]]"
    by code_simp
  have g4': "parse_line (''garbage'' @ [NL]) = Inl IndexError"
    by code_simp
  have h4: "config_values ?w4 ?a = Some (''cope'', ''secret'', ''orcl'', ''EXT_DIR'') \<and>
            connect_ok ?w4 ''cope'' ''secret'' ''orcl'' \<and>
            char_rows ?w4 = Some [] \<and> all_rows ?w4 = Some [''NAME''] \<and>
            open_lines ?w4 (fmt_path ?a) = Some ?ls4 \<and>
            list_all is_column_line [''NAME,10'' @ [NL]] \<and>
            parse_line (''garbage'' @ [NL]) = Inl IndexError"
    using cv co cr al op g4 g4' by (intro conjI)
  note t4 = failure_paths_terminate [where w = ?w4 and a = ?a and u = "''cope''"
             and pw = "''secret''" and d = "''orcl''" and dir = "''EXT_DIR''"
             and crows = "[]" and arows = "[''NAME'']" and pre = "[''NAME,10'' @ [NL]]"
             and l = "''garbage'' @ [NL]" and post = "[]" and e = IndexError,
             THEN conjunct2, THEN conjunct2, THEN conjunct2, THEN conjunct2, THEN conjunct2, THEN conjunct2, THEN conjunct2, THEN conjunct2, THEN conjunct2, THEN conjunct1, THEN mp, OF h4]
  have r4: "main ?w4 ?a =
     ([Connect ''cope'' ''secret'' ''orcl'', Execute CharSemanticsQuery, Execute AllColumnsQuery,
       OpenDescriptor ''cope.fmt'', LogError (ExnText IndexError)],
      Inl SysExit)"
    using t4 unfolding f .
  \<comment> \<open>a discrepancy\<close>
  let ?w5 = "demo_world (Some demo_lines) [] [''NAME'', ''ADDR'', ''PHONE'']"
  let ?st = "\<lparr>all_columns = {''NAME'', ''ADDR''}, offset = 30,
          with_lengths = [''NAME VARCHAR2(10 BYTE)'', ''ADDR VARCHAR2(20 BYTE)''],
          with_offsets = [[DQ] @ ''NAME'' @ [DQ] @ [TAB] @ ''POSITION(1:10)'',
                          [DQ] @ ''ADDR'' @ [DQ] @ [TAB] @ ''POSITION(11:30)'']\<rparr>"
  have ac: "all_columns ?st = {''NAME'', ''ADDR''}" by simp
  have g5: "all_columns ?st \<noteq> set [''NAME'', ''ADDR'', ''PHONE'']"
    unfolding ac by (rule phone_differs)
  have h5: "config_values ?w5 ?a = Some (''cope'', ''secret'', ''orcl'', ''EXT_DIR'') \<and>
            connect_ok ?w5 ''cope'' ''secret'' ''orcl'' \<and>
            char_rows ?w5 = Some [] \<and> all_rows ?w5 = Some [''NAME'', ''ADDR'', ''PHONE''] \<and>
            open_lines ?w5 (fmt_path ?a) = Some demo_lines \<and>
            collect_loop (set []) init_state demo_lines = Inr ?st \<and>
            all_columns ?st \<noteq> set [''NAME'', ''ADDR'', ''PHONE'']"
    using cv co cr al op demo_lines_loop g5 by (intro conjI)
  note t5 = failure_paths_terminate [where w = ?w5 and a = ?a and u = "''cope''"
             and pw = "''secret''" and d = "''orcl''" and dir = "''EXT_DIR''"
             and crows = "[]" and arows = "[''NAME'', ''ADDR'', ''PHONE'']"
             and ls = demo_lines and st = ?st, THEN conjunct2, THEN conjunct2, THEN conjunct2, THEN conjunct2, THEN conjunct2, THEN conjunct2, THEN conjunct2, THEN conjunct2, THEN conjunct2, THEN conjunct2, THEN conjunct1, THEN mp, OF h5]
  have r5: "main ?w5 ?a =
     ([Connect ''cope'' ''secret'' ''orcl'', Execute CharSemanticsQuery, Execute AllColumnsQuery,
       OpenDescriptor ''cope.fmt'', PrintDiscrepancies {''PHONE''}],
      Inl SysExit)"
    using t5 unfolding ac phone_xor f .
  show ?thesis
    by (intro conjI) (rule r1, rule r2, rule r3, rule r4, rule r5, rule s3)
qed

end
